theory Spec2Isabelle
  imports Complex_Main "HOL-Library.Monad_Syntax"
begin

section \<open>Conventions of the embedding\<close>

text \<open>
  The widget consists of two JavaScript classes: \<^verbatim>\<open>RotationController\<close>
  (src/js/rotation-controller.js) and \<^verbatim>\<open>LayerManager\<close> (src/unnamed/part_000).
  Each class becomes a record of its fields together with the part of the browser it talks
  to (listener registry, pending frame callbacks, timers, DOM nodes), and each method becomes
  a function from state to state.

  \<^item> JavaScript numbers are modelled as \<^typ>\<open>real\<close> (angles, scale, time stamps) and
    as \<^typ>\<open>int\<close> (layer indices). Rounding, NaN and infinities are outside the model.
  \<^item> \<^verbatim>\<open>null\<close> is \<^const>\<open>None\<close>.
  \<^item> A \<^verbatim>\<open>TypeError\<close> (property access on \<^verbatim>\<open>undefined\<close> or \<^verbatim>\<open>null\<close>)
    is the result \<^const>\<open>None\<close> of a method of type \<open>state \<Rightarrow> state option\<close>.
  \<^item> Function objects have identity: \<^verbatim>\<open>f.bind(this)\<close> and an arrow function each
    allocate a fresh object, which is what \<^verbatim>\<open>removeEventListener\<close> compares.
\<close>

subsection \<open>Event targets, function objects and the listener registry\<close>

datatype target =
    Container | LayersWrapper | Document | Window
  | LayerEl nat | IndicatorEl nat | OverlayEl nat | CloseButtonEl nat

datatype handler =
    Method string         \<comment> \<open>the prototype method \<^verbatim>\<open>this.m\<close> itself\<close>
  | Bound string nat      \<comment> \<open>the object returned by one call of \<^verbatim>\<open>this.m.bind(this)\<close>\<close>
  | Closure nat           \<comment> \<open>one arrow function object\<close>

type_synonym listener = "target \<times> string \<times> handler"

definition addEventListener :: "listener \<Rightarrow> listener list \<Rightarrow> listener list" where
  "addEventListener l ls = (if l \<in> set ls then ls else ls @ [l])"

definition removeEventListener :: "listener \<Rightarrow> listener list \<Rightarrow> listener list" where
  "removeEventListener l ls = filter (\<lambda>x. x \<noteq> l) ls"

section \<open>RotationController\<close>

subsection \<open>Constants\<close>

definition MAX_ROTATION_X :: real where "MAX_ROTATION_X = 90"
definition ROTATION_SENSITIVITY :: real where "ROTATION_SENSITIVITY = 1 / 2"
definition TRANSITION_DURATION :: real where "TRANSITION_DURATION = 300"
definition BREAKPOINT_MOBILE :: real where "BREAKPOINT_MOBILE = 480"
definition BREAKPOINT_TABLET :: real where "BREAKPOINT_TABLET = 768"

text \<open>
  \<^verbatim>\<open>minScale\<close>, \<^verbatim>\<open>maxScale\<close>, \<^verbatim>\<open>dampening\<close> and \<^verbatim>\<open>updateThrottle\<close> are
  instance fields assigned once in the constructor and never again; they are constants here.
\<close>

definition minScale :: real where "minScale = 2 / 10"
definition maxScale :: real where "maxScale = 2"
definition dampening :: real where "dampening = 95 / 100"
definition updateThrottle :: real where "updateThrottle = 16"

subsection \<open>State\<close>

text \<open>
  A callback waiting in the browser's animation-frame queue is one of the three closures
  the class passes to \<^verbatim>\<open>requestAnimationFrame\<close>, with the variables it captured.
\<close>

datatype callback =
    LoopAnimate                          \<comment> \<open>\<^verbatim>\<open>animate\<close> of \<^verbatim>\<open>startAnimationLoop\<close>\<close>
  | RotAnimate real real real real real  \<comment> \<open>startX startY targetX targetY startTime\<close>
  | ScaleAnimate real real real          \<comment> \<open>startScale targetScale startTime\<close>

datatype rc_event =
    RotationUpdate real real real        \<comment> \<open>detail: rotateX rotateY scale\<close>
  | ZoomUpdate real real real            \<comment> \<open>detail: scale minScale maxScale\<close>

record rc_state =
  rotateX :: real
  rotateY :: real
  velocityX :: real
  velocityY :: real
  scale :: real
  isDragging :: bool
  isZooming :: bool
  lastDistance :: real
  animationId :: "nat option"
  sensitivity :: real
  touchSensitivity :: real
  lastUpdateTime :: real
  pointerEvents :: bool
  \<comment> \<open>the browser\<close>
  clock :: real                            \<comment> \<open>\<^verbatim>\<open>performance.now()\<close> and the frame time stamp\<close>
  frameQueue :: "(nat \<times> callback) list"    \<comment> \<open>pending \<^verbatim>\<open>requestAnimationFrame\<close> callbacks\<close>
  nextHandle :: nat
  rc_listeners :: "listener list"
  rc_nextFn :: nat                         \<comment> \<open>function objects allocated so far\<close>
  wrapperTransform :: "(real \<times> real \<times> real) option"
  rc_dispatched :: "rc_event list"         \<comment> \<open>events dispatched on the container, oldest first\<close>

subsection \<open>Browser primitives\<close>

definition requestAnimationFrame :: "callback \<Rightarrow> rc_state \<Rightarrow> nat \<times> rc_state" where
  "requestAnimationFrame cb s =
     (nextHandle s,
      s\<lparr>frameQueue := frameQueue s @ [(nextHandle s, cb)], nextHandle := nextHandle s + 1\<rparr>)"

definition cancelAnimationFrame :: "nat \<Rightarrow> rc_state \<Rightarrow> rc_state" where
  "cancelAnimationFrame h s = s\<lparr>frameQueue := filter (\<lambda>(h', cb). h' \<noteq> h) (frameQueue s)\<rparr>"

definition rc_listen :: "target \<Rightarrow> string \<Rightarrow> handler \<Rightarrow> rc_state \<Rightarrow> rc_state" where
  "rc_listen t ty h s = s\<lparr>rc_listeners := addEventListener (t, ty, h) (rc_listeners s)\<rparr>"

definition rc_listenBound :: "target \<Rightarrow> string \<Rightarrow> string \<Rightarrow> rc_state \<Rightarrow> rc_state" where
  \<comment> \<open>\<^verbatim>\<open>t.addEventListener(ty, this.m.bind(this))\<close>\<close>
  "rc_listenBound t ty m s = rc_listen t ty (Bound m (rc_nextFn s)) (s\<lparr>rc_nextFn := rc_nextFn s + 1\<rparr>)"

definition rc_listenClosure :: "target \<Rightarrow> string \<Rightarrow> rc_state \<Rightarrow> rc_state" where
  \<comment> \<open>\<^verbatim>\<open>t.addEventListener(ty, (e) => ...)\<close>\<close>
  "rc_listenClosure t ty s = rc_listen t ty (Closure (rc_nextFn s)) (s\<lparr>rc_nextFn := rc_nextFn s + 1\<rparr>)"

definition rc_unlisten :: "target \<Rightarrow> string \<Rightarrow> handler \<Rightarrow> rc_state \<Rightarrow> rc_state" where
  "rc_unlisten t ty h s = s\<lparr>rc_listeners := removeEventListener (t, ty, h) (rc_listeners s)\<rparr>"

subsection \<open>Methods\<close>

definition clampX :: "real \<Rightarrow> real" where
  \<comment> \<open>\<^verbatim>\<open>Math.max(-CONFIG.MAX_ROTATION_X, Math.min(CONFIG.MAX_ROTATION_X, x))\<close>\<close>
  "clampX x = max (- MAX_ROTATION_X) (min MAX_ROTATION_X x)"

definition clampScale :: "real \<Rightarrow> real" where
  \<comment> \<open>\<^verbatim>\<open>Math.max(this.minScale, Math.min(this.maxScale, x))\<close>\<close>
  "clampScale x = max minScale (min maxScale x)"

definition applyTransform :: "rc_state \<Rightarrow> rc_state" where
  "applyTransform s =
     s\<lparr>wrapperTransform := Some (rotateX s, rotateY s, scale s),
       rc_dispatched := rc_dispatched s @ [RotationUpdate (rotateX s) (rotateY s) (scale s)]\<rparr>"

definition applyRotation :: "rc_state \<Rightarrow> rc_state" where
  "applyRotation s = applyTransform s"

definition updateRotation :: "real \<Rightarrow> real \<Rightarrow> real \<Rightarrow> rc_state \<Rightarrow> rc_state" where
  "updateRotation deltaX deltaY sens s =
     (let newRotateY = rotateY s + deltaX * sens;
          newRotateX = rotateX s - deltaY * sens
      in applyRotation
           (s\<lparr>rotateX := clampX newRotateX,
              rotateY := newRotateY,
              velocityX := deltaY * sens * (1 / 10),
              velocityY := deltaX * sens * (1 / 10)\<rparr>))"

definition animateToRotation :: "real \<Rightarrow> real \<Rightarrow> rc_state \<Rightarrow> rc_state" where
  "animateToRotation targetX targetY s =
     snd (requestAnimationFrame (RotAnimate (rotateX s) (rotateY s) targetX targetY (clock s)) s)"

definition easeOut :: "real \<Rightarrow> real" where
  \<comment> \<open>\<^verbatim>\<open>1 - Math.pow(1 - progress, 3)\<close>\<close>
  "easeOut progress = 1 - (1 - progress) ^ 3"

definition rotAnimate :: "real \<Rightarrow> real \<Rightarrow> real \<Rightarrow> real \<Rightarrow> real \<Rightarrow> real \<Rightarrow> rc_state \<Rightarrow> rc_state" where
  \<comment> \<open>the closure \<^verbatim>\<open>animate\<close> of \<^verbatim>\<open>animateToRotation\<close>, called with \<open>currentTime\<close>\<close>
  "rotAnimate startX startY targetX targetY startTime currentTime s =
     (let elapsed = currentTime - startTime;
          progress = min (elapsed / TRANSITION_DURATION) 1;
          easeProgress = easeOut progress;
          s1 = applyRotation
                 (s\<lparr>rotateX := startX + (targetX - startX) * easeProgress,
                    rotateY := startY + (targetY - startY) * easeProgress\<rparr>)
      in if progress < 1
         then snd (requestAnimationFrame (RotAnimate startX startY targetX targetY startTime) s1)
         else s1)"

definition rotateWithAnimation :: "real \<Rightarrow> real \<Rightarrow> rc_state \<Rightarrow> rc_state" where
  "rotateWithAnimation deltaY deltaX s =
     (let targetX = clampX (rotateX s + deltaX);
          targetY = rotateY s + deltaY
      in animateToRotation targetX targetY s)"

definition updateZoom :: "real \<Rightarrow> rc_state \<Rightarrow> rc_state" where
  "updateZoom delta s =
     (let newScale = clampScale (scale s + delta)
      in if newScale \<noteq> scale s
         then (let s1 = applyTransform (s\<lparr>scale := newScale\<rparr>)
               in s1\<lparr>rc_dispatched := rc_dispatched s1 @ [ZoomUpdate (scale s1) minScale maxScale]\<rparr>)
         else s)"

definition animateToScale :: "real \<Rightarrow> rc_state \<Rightarrow> rc_state" where
  "animateToScale targetScale s =
     snd (requestAnimationFrame (ScaleAnimate (scale s) targetScale (clock s)) s)"

definition scaleAnimate :: "real \<Rightarrow> real \<Rightarrow> real \<Rightarrow> real \<Rightarrow> rc_state \<Rightarrow> rc_state" where
  \<comment> \<open>the closure \<^verbatim>\<open>animate\<close> of \<^verbatim>\<open>animateToScale\<close>\<close>
  "scaleAnimate startScale targetScale startTime currentTime s =
     (let elapsed = currentTime - startTime;
          progress = min (elapsed / TRANSITION_DURATION) 1;
          easeProgress = easeOut progress;
          s1 = applyTransform (s\<lparr>scale := startScale + (targetScale - startScale) * easeProgress\<rparr>)
      in if progress < 1
         then snd (requestAnimationFrame (ScaleAnimate startScale targetScale startTime) s1)
         else s1)"

definition resetZoom :: "rc_state \<Rightarrow> rc_state" where
  "resetZoom s = animateToScale 1 s"

definition resetRotation :: "rc_state \<Rightarrow> rc_state" where
  "resetRotation s = (animateToRotation 0 0 s)\<lparr>velocityX := 0, velocityY := 0\<rparr>"

definition resetAll :: "rc_state \<Rightarrow> rc_state" where
  "resetAll s = (animateToScale 1 (animateToRotation 0 0 s))\<lparr>velocityX := 0, velocityY := 0\<rparr>"

definition momentumStep :: "rc_state \<Rightarrow> rc_state" where
  \<comment> \<open>the \<^verbatim>\<open>if\<close> statement of the loop's \<^verbatim>\<open>animate\<close>\<close>
  "momentumStep s =
     (if \<not> isDragging s \<and> (\<bar>velocityX s\<bar> > 1 / 10 \<or> \<bar>velocityY s\<bar> > 1 / 10)
      then applyRotation
             (s\<lparr>rotateX := clampX (rotateX s + velocityX s),
                rotateY := rotateY s + velocityY s,
                velocityX := velocityX s * dampening,
                velocityY := velocityY s * dampening\<rparr>)
      else s)"

definition loopAnimate :: "rc_state \<Rightarrow> rc_state" where
  \<comment> \<open>one run of the loop's \<^verbatim>\<open>animate\<close>: the momentum step, then re-scheduling itself\<close>
  "loopAnimate s =
     (let (h, s1) = requestAnimationFrame LoopAnimate (momentumStep s)
      in s1\<lparr>animationId := Some h\<rparr>)"

definition startAnimationLoop :: "rc_state \<Rightarrow> rc_state" where
  "startAnimationLoop s = loopAnimate s"

definition setRotation :: "real \<Rightarrow> real \<Rightarrow> bool \<Rightarrow> rc_state \<Rightarrow> rc_state" where
  "setRotation x y animate s =
     (if animate then animateToRotation x y s
      else applyTransform (s\<lparr>rotateX := clampX x, rotateY := y\<rparr>))"

definition setScale :: "real \<Rightarrow> bool \<Rightarrow> rc_state \<Rightarrow> rc_state" where
  "setScale sc animate s =
     (let clampedScale = clampScale sc
      in if animate then animateToScale clampedScale s
         else applyTransform (s\<lparr>scale := clampedScale\<rparr>))"

definition setEnabled :: "bool \<Rightarrow> rc_state \<Rightarrow> rc_state" where
  "setEnabled enabled s =
     (if enabled then s\<lparr>pointerEvents := True\<rparr>
      else s\<lparr>pointerEvents := False, isDragging := False\<rparr>)"

subsection \<open>Input handlers\<close>

definition handleMouseUp :: "rc_state \<Rightarrow> rc_state" where
  "handleMouseUp s = (if \<not> isDragging s then s else s\<lparr>isDragging := False\<rparr>)"

definition handleWheel :: "real \<Rightarrow> rc_state \<Rightarrow> rc_state" where
  "handleWheel deltaY s = (let zoomDelta = deltaY * (- (1 / 1000)) in updateZoom zoomDelta s)"

definition getTouchDistance :: "real \<times> real \<Rightarrow> real \<times> real \<Rightarrow> real" where
  "getTouchDistance touch1 touch2 =
     (let dx = fst touch2 - fst touch1; dy = snd touch2 - snd touch1
      in sqrt (dx * dx + dy * dy))"

text \<open>A touch event is the list of its touch points (clientX, clientY).\<close>

definition handleTouchStart :: "(real \<times> real) list \<Rightarrow> rc_state \<Rightarrow> rc_state" where
  "handleTouchStart touches s =
     (case touches of
        [t0, t1] \<Rightarrow> s\<lparr>isDragging := False, isZooming := True, lastDistance := getTouchDistance t0 t1\<rparr>
      | _ \<Rightarrow> s)"

definition handleTouchMove :: "(real \<times> real) list \<Rightarrow> rc_state \<Rightarrow> rc_state" where
  "handleTouchMove touches s =
     (let currentTime = clock s
      in if currentTime - lastUpdateTime s < updateThrottle then s
         else (let s1 = s\<lparr>lastUpdateTime := currentTime\<rparr>
               in case touches of
                    [t0, t1] \<Rightarrow>
                      (if isZooming s1
                       then (let currentDistance = getTouchDistance t0 t1;
                                 deltaDistance = currentDistance - lastDistance s1;
                                 zoomDelta = deltaDistance * (1 / 100)
                             in (updateZoom zoomDelta s1)\<lparr>lastDistance := currentDistance\<rparr>)
                       else s1)
                  | _ \<Rightarrow> s1))"

definition handleTouchEnd :: "(real \<times> real) list \<Rightarrow> rc_state \<Rightarrow> rc_state" where
  "handleTouchEnd touches s =
     (case touches of
        [] \<Rightarrow> s\<lparr>isDragging := False, isZooming := False\<rparr>
      | [t] \<Rightarrow> s\<lparr>isZooming := False, isDragging := True\<rparr>
      | _ \<Rightarrow> s)"

text \<open>
  \<open>code\<close> ranges over the key codes of keyboard events (\<^verbatim>\<open>KeyR\<close>, \<^verbatim>\<open>ArrowLeft\<close>, ...);
  a synthetic event whose code names a member of \<^verbatim>\<open>Object.prototype\<close> is outside the
  controller's model, which has no error result.
\<close>

definition handleKeyDown :: "string \<Rightarrow> rc_state \<Rightarrow> rc_state" where
  "handleKeyDown code s =
     (if code = ''ArrowLeft'' then rotateWithAnimation (- 15) 0 s
      else if code = ''ArrowRight'' then rotateWithAnimation 15 0 s
      else if code = ''ArrowUp'' then rotateWithAnimation 0 (- 15) s
      else if code = ''ArrowDown'' then rotateWithAnimation 0 15 s
      else if code = ''Space'' \<or> code = ''KeyR'' \<or> code = ''Home'' then resetRotation s
      else s)"

definition handleResize :: "real \<Rightarrow> rc_state \<Rightarrow> rc_state" where
  "handleResize width s =
     (if width \<le> BREAKPOINT_MOBILE
      then s\<lparr>sensitivity := ROTATION_SENSITIVITY * (6 / 10),
             touchSensitivity := ROTATION_SENSITIVITY * (5 / 10)\<rparr>
      else if width \<le> BREAKPOINT_TABLET
      then s\<lparr>sensitivity := ROTATION_SENSITIVITY * (8 / 10),
             touchSensitivity := ROTATION_SENSITIVITY * (6 / 10)\<rparr>
      else s\<lparr>sensitivity := ROTATION_SENSITIVITY,
             touchSensitivity := ROTATION_SENSITIVITY * (8 / 10)\<rparr>)"

subsection \<open>Construction and teardown\<close>

definition initializeEventListeners :: "rc_state \<Rightarrow> rc_state" where
  "initializeEventListeners s =
     (rc_listenClosure Container ''dragstart''
     (rc_listenBound Window ''resize'' ''handleResize''
     (rc_listenClosure Container ''contextmenu''
     (rc_listenBound Document ''keydown'' ''handleKeyDown''
     (rc_listenBound Document ''touchend'' ''handleTouchEnd''
     (rc_listenBound Document ''touchmove'' ''handleTouchMove''
     (rc_listenBound Container ''touchstart'' ''handleTouchStart''
     (rc_listenBound LayersWrapper ''wheel'' ''handleWheel''
     (rc_listenBound Document ''mouseup'' ''handleMouseUp''
     (rc_listenBound Document ''mousemove'' ''handleMouseMove''
     (rc_listenBound Container ''mousedown'' ''handleMouseDown'' s)))))))))))"

definition rc_fields :: "real \<Rightarrow> rc_state" where
  \<comment> \<open>the field initialisers of the constructor, in a browser whose clock reads \<open>now\<close>\<close>
  "rc_fields now =
     \<lparr>rotateX = 0, rotateY = 0, velocityX = 0, velocityY = 0, scale = 1,
      isDragging = False, isZooming = False, lastDistance = 0, animationId = None,
      sensitivity = ROTATION_SENSITIVITY, touchSensitivity = ROTATION_SENSITIVITY * (8 / 10),
      lastUpdateTime = 0, pointerEvents = True,
      clock = now, frameQueue = [], nextHandle = 1, rc_listeners = [], rc_nextFn = 0,
      wrapperTransform = None, rc_dispatched = []\<rparr>"

definition rc_construct :: "real \<Rightarrow> rc_state" where
  "rc_construct now = applyTransform (startAnimationLoop (initializeEventListeners (rc_fields now)))"

definition rc_destroy :: "rc_state \<Rightarrow> rc_state" where
  "rc_destroy s =
     (let s1 = (case animationId s of
                  Some h \<Rightarrow> if h \<noteq> 0 then cancelAnimationFrame h s else s
                | None \<Rightarrow> s)
      in rc_unlisten Window ''resize'' (Method ''handleResize'')
        (rc_unlisten Document ''keydown'' (Method ''handleKeyDown'')
        (rc_unlisten Document ''touchend'' (Method ''handleTouchEnd'')
        (rc_unlisten Document ''touchmove'' (Method ''handleTouchMove'')
        (rc_unlisten Container ''touchstart'' (Method ''handleTouchStart'')
        (rc_unlisten Document ''mouseup'' (Method ''handleMouseUp'')
        (rc_unlisten Document ''mousemove'' (Method ''handleMouseMove'')
        (rc_unlisten Container ''mousedown'' (Method ''handleMouseDown'') s1))))))))"

subsection \<open>The browser driving the controller\<close>

text \<open>
  Between two calls time may pass (\<open>Advance\<close>); a display refresh (\<open>Frame\<close>) takes the
  callbacks pending at that moment and runs each once, in the order they were requested, with
  the current clock as time stamp. Callbacks requested meanwhile wait for the next refresh.
  The time stamp of a frame and \<^verbatim>\<open>performance.now()\<close> read the same clock, so a callback
  never sees a time stamp earlier than the start time its animation recorded, as long as the
  clock does not run backwards (\<open>time_forward\<close>).
\<close>

definition runCallback :: "real \<Rightarrow> rc_state \<Rightarrow> callback \<Rightarrow> rc_state" where
  "runCallback t s cb =
     (case cb of
        LoopAnimate \<Rightarrow> loopAnimate s
      | RotAnimate sx sy tx ty st \<Rightarrow> rotAnimate sx sy tx ty st t s
      | ScaleAnimate ss ts st \<Rightarrow> scaleAnimate ss ts st t s)"

definition runFrame :: "rc_state \<Rightarrow> rc_state" where
  "runFrame s = foldl (runCallback (clock s)) (s\<lparr>frameQueue := []\<rparr>) (map snd (frameQueue s))"

datatype rc_op =
    Advance real
  | Frame
  | UpdateRotation real real real
  | RotateWithAnimation real real
  | SetRotation real real bool
  | ResetRotation
  | UpdateZoom real
  | SetScale real bool
  | ResetZoom
  | ResetAll
  | SetEnabled bool
  | HandleMouseUp
  | HandleWheel real
  | HandleTouchStart "(real \<times> real) list"
  | HandleTouchMove "(real \<times> real) list"
  | HandleTouchEnd "(real \<times> real) list"
  | HandleKeyDown string
  | HandleResize real
  | Destroy

fun rc_exec :: "rc_state \<Rightarrow> rc_op \<Rightarrow> rc_state" where
  "rc_exec s (Advance d) = s\<lparr>clock := clock s + d\<rparr>"
| "rc_exec s Frame = runFrame s"
| "rc_exec s (UpdateRotation dx dy sens) = updateRotation dx dy sens s"
| "rc_exec s (RotateWithAnimation dy dx) = rotateWithAnimation dy dx s"
| "rc_exec s (SetRotation x y animate) = setRotation x y animate s"
| "rc_exec s ResetRotation = resetRotation s"
| "rc_exec s (UpdateZoom d) = updateZoom d s"
| "rc_exec s (SetScale sc animate) = setScale sc animate s"
| "rc_exec s ResetZoom = resetZoom s"
| "rc_exec s ResetAll = resetAll s"
| "rc_exec s (SetEnabled b) = setEnabled b s"
| "rc_exec s HandleMouseUp = handleMouseUp s"
| "rc_exec s (HandleWheel dy) = handleWheel dy s"
| "rc_exec s (HandleTouchStart ts) = handleTouchStart ts s"
| "rc_exec s (HandleTouchMove ts) = handleTouchMove ts s"
| "rc_exec s (HandleTouchEnd ts) = handleTouchEnd ts s"
| "rc_exec s (HandleKeyDown code) = handleKeyDown code s"
| "rc_exec s (HandleResize w) = handleResize w s"
| "rc_exec s Destroy = rc_destroy s"

definition rc_run :: "rc_op list \<Rightarrow> rc_state \<Rightarrow> rc_state" where
  "rc_run ops s = foldl rc_exec s ops"

fun time_forward :: "rc_op \<Rightarrow> bool" where
  \<comment> \<open>the clock never runs backwards\<close>
  "time_forward (Advance d) = (0 \<le> d)"
| "time_forward _ = True"

subsection \<open>Observations and invariants\<close>

fun isZoomUpdate :: "rc_event \<Rightarrow> bool" where
  "isZoomUpdate (ZoomUpdate sc lo hi) = True"
| "isZoomUpdate _ = False"

definition zoomUpdates :: "rc_state \<Rightarrow> nat" where
  \<comment> \<open>how many \<^verbatim>\<open>zoomUpdate\<close> events have been dispatched so far\<close>
  "zoomUpdates s = length (filter isZoomUpdate (rc_dispatched s))"




fun scale_cb_ok :: "real \<Rightarrow> callback \<Rightarrow> bool" where
  \<comment> \<open>a pending scale animation started no later than \<open>now\<close>, between two scales in range\<close>
  "scale_cb_ok now (ScaleAnimate startScale targetScale startTime) =
     (minScale \<le> startScale \<and> startScale \<le> maxScale \<and>
      minScale \<le> targetScale \<and> targetScale \<le> maxScale \<and> startTime \<le> now)"
| "scale_cb_ok now _ = True"

definition scale_ok :: "rc_state \<Rightarrow> bool" where
  "scale_ok s = (minScale \<le> scale s \<and> scale s \<le> maxScale)"

definition scale_inv :: "rc_state \<Rightarrow> bool" where
  "scale_inv s = (scale_ok s \<and> list_all (scale_cb_ok (clock s)) (map snd (frameQueue s)))"

fun rot_cb_ok :: "real \<Rightarrow> callback \<Rightarrow> bool" where
  \<comment> \<open>a pending rotation animation started no later than \<open>now\<close>, between two X angles in range\<close>
  "rot_cb_ok now (RotAnimate startX startY targetX targetY startTime) =
     (- MAX_ROTATION_X \<le> startX \<and> startX \<le> MAX_ROTATION_X \<and>
      - MAX_ROTATION_X \<le> targetX \<and> targetX \<le> MAX_ROTATION_X \<and> startTime \<le> now)"
| "rot_cb_ok now _ = True"

definition rot_ok :: "rc_state \<Rightarrow> bool" where
  "rot_ok s = (- MAX_ROTATION_X \<le> rotateX s \<and> rotateX s \<le> MAX_ROTATION_X)"

definition rot_inv :: "rc_state \<Rightarrow> bool" where
  "rot_inv s = (rot_ok s \<and> list_all (rot_cb_ok (clock s)) (map snd (frameQueue s)))"

fun target_in_range :: "rc_op \<Rightarrow> bool" where
  \<comment> \<open>time runs forwards, and an animated \<^verbatim>\<open>setRotation\<close> is given an X angle in range\<close>
  "target_in_range (Advance d) = (0 \<le> d)"
| "target_in_range (SetRotation x y animate) =
     (if animate then - MAX_ROTATION_X \<le> x \<and> x \<le> MAX_ROTATION_X else True)"
| "target_in_range _ = True"

section \<open>The animation arithmetic in double precision\<close>

text \<open>
  The controller above computes with real numbers. JavaScript computes with IEEE 754
  binary64 numbers, and the last frame of an animation shows the difference. A finite double
  is modelled as a pair \<open>(m, e)\<close> of integers standing for \<open>m * 2 ^ e\<close>; every operation
  computes the exact result and rounds it to 53 significant bits, ties to even. Exponent
  range, infinities and NaN are left out: all values below are of moderate size.
\<close>

type_synonym double = "int \<times> int"

definition valD :: "double \<Rightarrow> real" where
  "valD d = (if 0 \<le> snd d then real_of_int (fst d) * 2 ^ nat (snd d)
             else real_of_int (fst d) / 2 ^ nat (- snd d))"

function bits :: "int \<Rightarrow> nat" where
  \<comment> \<open>the number of binary digits of a positive integer\<close>
  "bits n = (if n \<le> 0 then 0 else Suc (bits (n div 2)))"
  by pat_completeness auto
termination
  by (relation "measure nat") auto

declare bits.simps [simp del]

definition round53 :: "double \<Rightarrow> double" where
  \<comment> \<open>round to nearest with 53 significant bits, ties to the even significand\<close>
  "round53 d =
     (let a = \<bar>fst d\<bar>; n = bits a
      in if n \<le> 53 then d
         else (let k = n - 53;
                   q = a div 2 ^ k;
                   r = a mod 2 ^ k;
                   h = 2 ^ (k - 1);
                   q' = (if h < r \<or> (r = h \<and> odd q) then q + 1 else q)
               in (sgn (fst d) * q', snd d + int k)))"

definition exactAdd :: "double \<Rightarrow> double \<Rightarrow> double" where
  "exactAdd x y =
     (let e = min (snd x) (snd y)
      in (fst x * 2 ^ nat (snd x - e) + fst y * 2 ^ nat (snd y - e), e))"

definition addD :: "double \<Rightarrow> double \<Rightarrow> double" where
  "addD x y = round53 (exactAdd x y)"

definition subD :: "double \<Rightarrow> double \<Rightarrow> double" where
  "subD x y = round53 (exactAdd x (- fst y, snd y))"

definition mulD :: "double \<Rightarrow> double \<Rightarrow> double" where
  "mulD x y = round53 (fst x * fst y, snd x + snd y)"

definition divD :: "double \<Rightarrow> double \<Rightarrow> double" where
  \<comment> \<open>for a divisor other than zero: the quotient to more than 56 bits, with a sticky bit
      for the remainder, then rounded\<close>
  "divD x y =
     (let a = \<bar>fst x\<bar>; b = \<bar>fst y\<bar>;
          s = 56 + bits b;
          q = (a * 2 ^ s) div b;
          sticky = (if (a * 2 ^ s) mod b = 0 then 0 else 1)
      in round53 (sgn (fst x) * sgn (fst y) * (2 * q + sticky),
                  snd x - snd y - int s - 1))"

definition lessD :: "double \<Rightarrow> double \<Rightarrow> bool" where
  "lessD x y = (fst (exactAdd x (- fst y, snd y)) < 0)"

definition minD :: "double \<Rightarrow> double \<Rightarrow> double" where
  \<comment> \<open>\<^verbatim>\<open>Math.min\<close>\<close>
  "minD x y = (if lessD y x then y else x)"

definition maxD :: "double \<Rightarrow> double \<Rightarrow> double" where
  \<comment> \<open>\<^verbatim>\<open>Math.max\<close>\<close>
  "maxD x y = (if lessD x y then y else x)"

definition pow3D :: "double \<Rightarrow> double" where
  \<comment> \<open>\<^verbatim>\<open>Math.pow(x, 3)\<close>, taken as the correctly rounded cube; the language leaves its
      precision to the implementation, except that the cubes of 0 and 1 are exact\<close>
  "pow3D x = round53 (fst x ^ 3, 3 * snd x)"

definition numD :: "int \<Rightarrow> double" where
  \<comment> \<open>an integer literal\<close>
  "numD n = round53 (n, 0)"

definition litD :: "int \<Rightarrow> int \<Rightarrow> double" where
  \<comment> \<open>the decimal literal with the exact value \<open>p / q\<close>: the double nearest to it\<close>
  "litD p q = divD (p, 0) (q, 0)"

definition minScaleD :: double where "minScaleD = litD 2 10"
definition maxScaleD :: double where "maxScaleD = numD 2"

definition clampScaleD :: "double \<Rightarrow> double" where
  \<comment> \<open>\<^verbatim>\<open>Math.max(this.minScale, Math.min(this.maxScale, x))\<close>\<close>
  "clampScaleD x = maxD minScaleD (minD maxScaleD x)"

definition clampXD :: "double \<Rightarrow> double" where
  \<comment> \<open>\<^verbatim>\<open>Math.max(-CONFIG.MAX_ROTATION_X, Math.min(CONFIG.MAX_ROTATION_X, x))\<close>\<close>
  "clampXD x = maxD (numD (- 90)) (minD (numD 90) x)"

definition animateD :: "double \<Rightarrow> double \<Rightarrow> double \<Rightarrow> double \<Rightarrow> double" where
  \<comment> \<open>the value the closure \<^verbatim>\<open>animate\<close> of \<^verbatim>\<open>animateToScale\<close> stores in
      \<^verbatim>\<open>this.scale\<close> (and that of \<^verbatim>\<open>animateToRotation\<close> in \<^verbatim>\<open>this.rotateX\<close>, by the same
      expression) when called with \<open>currentTime\<close>\<close>
  "animateD start target startTime currentTime =
     (let elapsed = subD currentTime startTime;
          progress = minD (divD elapsed (numD 300)) (numD 1);
          easeProgress = subD (numD 1) (pow3D (subD (numD 1) progress))
      in addD start (mulD (subD target start) easeProgress))"

section \<open>LayerManager\<close>

subsection \<open>Constants\<close>

definition LAYER_CONFIG :: "int \<Rightarrow> int option" where
  \<comment> \<open>the \<^verbatim>\<open>zIndex\<close> of \<^verbatim>\<open>LAYER_CONFIG[`LAYER_${i}`]\<close>; \<^const>\<open>None\<close> where the key is
      absent, so that reading a property of the entry throws. The display names are left out.\<close>
  "LAYER_CONFIG i =
     (if i = 1 then Some (- 200) else if i = 2 then Some (- 100) else if i = 3 then Some 0
      else if i = 4 then Some 100 else if i = 5 then Some 200 else None)"

subsection \<open>State\<close>

datatype css_transform =
    Unset                 \<comment> \<open>no inline transform\<close>
  | Rest int              \<comment> \<open>\<^verbatim>\<open>translateZ(${z}px)\<close>\<close>
  | Highlight int         \<comment> \<open>\<^verbatim>\<open>scale(1.02) translateZ(${z}px)\<close>\<close>
  | Front                 \<comment> \<open>\<^verbatim>\<open>translateZ(300px) scale(1.1)\<close>\<close>

record layer_el =
  classActive :: bool              \<comment> \<open>class \<^verbatim>\<open>active\<close>\<close>
  styleTransform :: css_transform
  styleBoxShadow :: bool           \<comment> \<open>the glow, or the empty string\<close>
  styleZIndex :: bool              \<comment> \<open>\<^verbatim>\<open>'1000'\<close>, or the empty string\<close>
  styleOpacity :: "real option"
  hasContent :: bool               \<comment> \<open>the layer has a \<^verbatim>\<open>.layer-content\<close> child\<close>

record overlay_el =
  ov_id :: nat
  ov_layer :: int
  ov_fadeOut :: bool               \<comment> \<open>class \<^verbatim>\<open>fade-out\<close>\<close>

datatype timer_action =
    ReleaseLatch                   \<comment> \<open>\<^verbatim>\<open>() => { this.isAnimating = false; }\<close>\<close>
  | RemoveOverlay nat              \<comment> \<open>\<^verbatim>\<open>() => { overlay.remove(); }\<close>\<close>

text \<open>A dispatched event: its name and the detail fields layerIndex, activeLayer, focusedLayer.\<close>

type_synonym lm_event = "string \<times> int option \<times> int option \<times> int option"

text \<open>
  \<^verbatim>\<open>this.layers\<close> and \<^verbatim>\<open>this.indicators\<close> are arrays of references to DOM elements; the
  elements themselves (\<open>layerEls\<close>, \<open>indicatorEls\<close>) belong to the document and outlive the
  arrays. An indicator element is modelled by its \<^verbatim>\<open>active\<close> class alone. The element
  with reference \<open>r\<close> carries the property \<^verbatim>\<open>layerIndex\<close> \<open>= r + 1\<close>. The fade-in of the
  overlay's opacity is presentational and not modelled.
\<close>

record lm_state =
  layers :: "nat list"
  indicators :: "nat list"
  activeLayer :: "int option"
  focusedLayer :: "int option"
  isAnimating :: bool
  \<comment> \<open>the document and the browser\<close>
  layerEls :: "layer_el list"
  indicatorEls :: "bool list"
  docOverlays :: "overlay_el list"     \<comment> \<open>nodes of class \<^verbatim>\<open>layer-detail-overlay\<close>, in document order\<close>
  docFocus :: "nat option"             \<comment> \<open>the layer element holding DOM focus, if one does\<close>
  nextNode :: nat
  lm_listeners :: "listener list"
  lm_nextFn :: nat
  lm_clock :: real
  timers :: "(real \<times> timer_action) list"  \<comment> \<open>pending \<^verbatim>\<open>setTimeout\<close> callbacks with their due time\<close>
  lm_dispatched :: "lm_event list"

subsection \<open>JavaScript coercions\<close>

fun js_truthy :: "int option \<Rightarrow> bool" where
  "js_truthy None = False"
| "js_truthy (Some i) = (i \<noteq> 0)"

definition js_or :: "int option \<Rightarrow> int option \<Rightarrow> int option" where
  \<comment> \<open>\<^verbatim>\<open>a || b\<close>\<close>
  "js_or a b = (if js_truthy a then a else b)"

fun toNumber :: "int option \<Rightarrow> int" where
  \<comment> \<open>\<^verbatim>\<open>null\<close> converts to 0 in arithmetic and in comparisons with numbers\<close>
  "toNumber None = 0"
| "toNumber (Some i) = i"

subsection \<open>Utility methods and DOM access\<close>

definition getLayer :: "int \<Rightarrow> lm_state \<Rightarrow> nat option" where
  \<comment> \<open>\<^verbatim>\<open>this.layers[layerIndex - 1]\<close>; \<^const>\<open>None\<close> is \<^verbatim>\<open>undefined\<close>\<close>
  "getLayer layerIndex s =
     (if 1 \<le> layerIndex \<and> layerIndex \<le> int (length (layers s))
      then Some (layers s ! nat (layerIndex - 1)) else None)"

definition getIndicator :: "int \<Rightarrow> lm_state \<Rightarrow> nat option" where
  "getIndicator layerIndex s =
     (if 1 \<le> layerIndex \<and> layerIndex \<le> int (length (indicators s))
      then Some (indicators s ! nat (layerIndex - 1)) else None)"

definition updLayer :: "nat \<Rightarrow> (layer_el \<Rightarrow> layer_el) \<Rightarrow> lm_state \<Rightarrow> lm_state" where
  "updLayer r f s = s\<lparr>layerEls := (layerEls s)[r := f (layerEls s ! r)]\<rparr>"

definition updIndicator :: "nat \<Rightarrow> bool \<Rightarrow> lm_state \<Rightarrow> lm_state" where
  "updIndicator r b s = s\<lparr>indicatorEls := (indicatorEls s)[r := b]\<rparr>"

definition dispatchLayerEvent :: "string \<Rightarrow> int option \<Rightarrow> lm_state \<Rightarrow> lm_state" where
  "dispatchLayerEvent eventName layerIndex s =
     s\<lparr>lm_dispatched := lm_dispatched s @ [(eventName, layerIndex, activeLayer s, focusedLayer s)]\<rparr>"

definition setTimeout :: "timer_action \<Rightarrow> real \<Rightarrow> lm_state \<Rightarrow> lm_state" where
  "setTimeout a delay s = s\<lparr>timers := timers s @ [(lm_clock s + delay, a)]\<rparr>"

definition lm_listen :: "listener \<Rightarrow> lm_state \<Rightarrow> lm_state" where
  "lm_listen l s = s\<lparr>lm_listeners := addEventListener l (lm_listeners s)\<rparr>"

definition lm_unlisten :: "listener \<Rightarrow> lm_state \<Rightarrow> lm_state" where
  "lm_unlisten l s = s\<lparr>lm_listeners := removeEventListener l (lm_listeners s)\<rparr>"

definition lm_listenClosure :: "target \<Rightarrow> string \<Rightarrow> lm_state \<Rightarrow> lm_state" where
  "lm_listenClosure t ty s = lm_listen (t, ty, Closure (lm_nextFn s)) (s\<lparr>lm_nextFn := lm_nextFn s + 1\<rparr>)"

definition attached :: "listener \<Rightarrow> lm_state \<Rightarrow> bool" where
  "attached l s = (l \<in> set (lm_listeners s))"

subsection \<open>Layer management methods\<close>

definition clearActive :: "int \<Rightarrow> lm_state \<Rightarrow> lm_state" where
  \<comment> \<open>body of \<^verbatim>\<open>if (this.activeLayer) { ... }\<close> in \<^verbatim>\<open>setActiveLayer\<close>\<close>
  "clearActive a s =
     (let s1 = (case getLayer a s of
                  Some r \<Rightarrow> updLayer r (\<lambda>l. l\<lparr>classActive := False\<rparr>) s | None \<Rightarrow> s)
      in case getIndicator a s1 of Some r \<Rightarrow> updIndicator r False s1 | None \<Rightarrow> s1)"

definition setActiveLayer :: "int \<Rightarrow> lm_state \<Rightarrow> lm_state" where
  "setActiveLayer layerIndex s =
     (if activeLayer s = Some layerIndex then s
      else
        (let s1 = (if js_truthy (activeLayer s) then clearActive (toNumber (activeLayer s)) s else s);
             s2 = s1\<lparr>activeLayer := Some layerIndex\<rparr>;
             s3 = (case getLayer layerIndex s2 of
                     Some r \<Rightarrow> updLayer r (\<lambda>l. l\<lparr>classActive := True\<rparr>) s2 | None \<Rightarrow> s2);
             s4 = (case getIndicator layerIndex s3 of
                     Some r \<Rightarrow> updIndicator r True s3 | None \<Rightarrow> s3)
         in dispatchLayerEvent ''layerActivated'' (Some layerIndex) s4))"

definition highlightLayer :: "int \<Rightarrow> lm_state \<Rightarrow> lm_state option" where
  "highlightLayer layerIndex s =
     (case getLayer layerIndex s of
        None \<Rightarrow> Some s
      | Some r \<Rightarrow>
          (case LAYER_CONFIG layerIndex of
             None \<Rightarrow> None
           | Some z \<Rightarrow> Some (updLayer r (\<lambda>l. l\<lparr>styleTransform := Highlight z, styleBoxShadow := True\<rparr>) s)))"

definition unhighlightLayer :: "int \<Rightarrow> lm_state \<Rightarrow> lm_state option" where
  "unhighlightLayer layerIndex s =
     (case getLayer layerIndex s of
        None \<Rightarrow> Some s
      | Some r \<Rightarrow>
          (if \<not> classActive (layerEls s ! r)
           then (case LAYER_CONFIG layerIndex of
                   None \<Rightarrow> None
                 | Some z \<Rightarrow> Some (updLayer r (\<lambda>l. l\<lparr>styleTransform := Rest z, styleBoxShadow := False\<rparr>) s))
           else Some s))"

subsection \<open>Focus\<close>

definition bh_layerClick :: handler where "bh_layerClick = Bound ''handleLayerClick'' 0"
definition bh_layerHover :: handler where "bh_layerHover = Bound ''handleLayerHover'' 1"
definition bh_layerLeave :: handler where "bh_layerLeave = Bound ''handleLayerLeave'' 2"
definition bh_layerFocus :: handler where "bh_layerFocus = Bound ''handleLayerFocus'' 3"
definition bh_layerBlur :: handler where "bh_layerBlur = Bound ''handleLayerBlur'' 4"
definition bh_indicatorClick :: handler where "bh_indicatorClick = Bound ''handleIndicatorClick'' 5"
definition bh_rotationUpdate :: handler where "bh_rotationUpdate = Bound ''handleRotationUpdate'' 6"

definition handleLayerFocus :: "int \<Rightarrow> lm_state \<Rightarrow> lm_state option" where
  "handleLayerFocus layerIndex s =
     do { s1 \<leftarrow> highlightLayer layerIndex (s\<lparr>focusedLayer := Some layerIndex\<rparr>);
          Some (dispatchLayerEvent ''layerFocus'' (Some layerIndex) s1) }"

definition handleLayerBlur :: "int \<Rightarrow> lm_state \<Rightarrow> lm_state option" where
  "handleLayerBlur layerIndex s =
     do { s1 \<leftarrow> (if focusedLayer s = Some layerIndex
                then (let s' = s\<lparr>focusedLayer := None\<rparr>
                      in if activeLayer s' \<noteq> Some layerIndex then unhighlightLayer layerIndex s'
                         else Some s')
                else Some s);
          Some (dispatchLayerEvent ''layerBlur'' (Some layerIndex) s1) }"

text \<open>
  \<^verbatim>\<open>element.focus()\<close> on the layer element \<open>r\<close>: nothing happens when it has the focus
  already; otherwise the element losing the focus receives \<^verbatim>\<open>blur\<close>, then \<open>r\<close> receives
  \<^verbatim>\<open>focus\<close>, each event reaching the manager's handler when that is still attached.
\<close>

definition elementBlur :: "lm_state \<Rightarrow> lm_state option" where
  "elementBlur s =
     (case docFocus s of
        None \<Rightarrow> Some s
      | Some q \<Rightarrow>
          (if attached (LayerEl q, ''blur'', bh_layerBlur) s
           then handleLayerBlur (int q + 1) (s\<lparr>docFocus := None\<rparr>)
           else Some (s\<lparr>docFocus := None\<rparr>)))"

definition elementFocus :: "nat \<Rightarrow> lm_state \<Rightarrow> lm_state option" where
  "elementFocus r s =
     (if docFocus s = Some r then Some s
      else do { s1 \<leftarrow> elementBlur s;
                let s2 = s1\<lparr>docFocus := Some r\<rparr>;
                if attached (LayerEl r, ''focus'', bh_layerFocus) s2
                then handleLayerFocus (int r + 1) s2 else Some s2 })"

definition focusOnLayer :: "int \<Rightarrow> lm_state \<Rightarrow> lm_state option" where
  "focusOnLayer layerIndex s =
     (case getLayer layerIndex s of None \<Rightarrow> Some s | Some r \<Rightarrow> elementFocus r s)"

definition currentLayer :: "lm_state \<Rightarrow> int" where
  \<comment> \<open>\<^verbatim>\<open>this.focusedLayer || this.activeLayer || 3\<close>\<close>
  "currentLayer s = toNumber (js_or (js_or (focusedLayer s) (activeLayer s)) (Some 3))"

definition navigateLayer :: "int \<Rightarrow> lm_state \<Rightarrow> lm_state option" where
  "navigateLayer direction s =
     (let newLayer = max 1 (min 5 (currentLayer s + direction))
      in if newLayer \<noteq> currentLayer s
         then focusOnLayer newLayer (setActiveLayer newLayer s)
         else Some s)"

definition cycleLayers :: "int \<Rightarrow> lm_state \<Rightarrow> lm_state option" where
  "cycleLayers direction s =
     (let newLayer = currentLayer s + direction;
          newLayer = (if newLayer > 5 then 1 else newLayer);
          newLayer = (if newLayer < 1 then 5 else newLayer)
      in focusOnLayer newLayer s)"

subsection \<open>Detail overlay\<close>

definition bringToFront :: "int \<Rightarrow> lm_state \<Rightarrow> lm_state" where
  "bringToFront layerIndex s =
     (case getLayer layerIndex s of
        None \<Rightarrow> s
      | Some r \<Rightarrow> updLayer r (\<lambda>l. l\<lparr>styleTransform := Front, styleZIndex := True\<rparr>) s)"

fun resetLoop :: "nat \<Rightarrow> nat list \<Rightarrow> lm_state \<Rightarrow> lm_state option" where
  \<comment> \<open>the \<^verbatim>\<open>forEach\<close> of \<^verbatim>\<open>resetLayerPositions\<close>, from array index \<open>index\<close> on\<close>
  "resetLoop index [] s = Some s"
| "resetLoop index (r # rs) s =
     (case LAYER_CONFIG (int index + 1) of
        None \<Rightarrow> None
      | Some z \<Rightarrow> resetLoop (index + 1) rs
                   (updLayer r (\<lambda>l. l\<lparr>styleTransform := Rest z, styleZIndex := False\<rparr>) s))"

definition resetLayerPositions :: "lm_state \<Rightarrow> lm_state option" where
  "resetLayerPositions s = resetLoop 0 (layers s) s"

definition createDetailOverlay :: "int \<Rightarrow> lm_state \<Rightarrow> lm_state option" where
  "createDetailOverlay layerIndex s =
     (let s1 = s\<lparr>docOverlays := drop 1 (docOverlays s)\<rparr>
      in case getLayer layerIndex s1 of
           None \<Rightarrow> None
         | Some r \<Rightarrow>
             (if \<not> hasContent (layerEls s1 ! r) then None
              else case LAYER_CONFIG layerIndex of
                     None \<Rightarrow> None
                   | Some z \<Rightarrow>
                       (let n = nextNode s1;
                            s2 = s1\<lparr>docOverlays := docOverlays s1 @
                                      [\<lparr>ov_id = n, ov_layer = layerIndex, ov_fadeOut = False\<rparr>],
                                    nextNode := n + 1\<rparr>
                        in Some (lm_listenClosure Document ''keydown''
                                  (lm_listenClosure (OverlayEl n) ''click''
                                    (lm_listenClosure (CloseButtonEl n) ''click'' s2))))))"

definition showLayerDetails :: "int \<Rightarrow> lm_state \<Rightarrow> lm_state option" where
  "showLayerDetails layerIndex s =
     (if isAnimating s then Some s
      else case getLayer layerIndex s of
             None \<Rightarrow> Some s
           | Some r \<Rightarrow>
               do { s1 \<leftarrow> createDetailOverlay layerIndex (s\<lparr>isAnimating := True\<rparr>);
                    let s2 = bringToFront layerIndex s1;
                    let s3 = setTimeout ReleaseLatch 500 s2;
                    Some (dispatchLayerEvent ''layerDetailsShown'' (Some layerIndex) s3) })"

definition hideLayerDetails :: "lm_state \<Rightarrow> lm_state option" where
  "hideLayerDetails s =
     (let s1 = (case docOverlays s of
                  [] \<Rightarrow> s
                | ov # rest \<Rightarrow>
                    setTimeout (RemoveOverlay (ov_id ov)) 300
                      (s\<lparr>docOverlays := ov\<lparr>ov_fadeOut := True\<rparr> # rest\<rparr>))
      in do { s2 \<leftarrow> resetLayerPositions s1;
              Some (dispatchLayerEvent ''layerDetailsHidden'' None s2) })"

subsection \<open>Rotation-driven visibility and activation\<close>

fun visibilityLoop :: "real \<Rightarrow> nat \<Rightarrow> nat list \<Rightarrow> lm_state \<Rightarrow> lm_state option" where
  \<comment> \<open>the \<^verbatim>\<open>forEach\<close> of \<^verbatim>\<open>updateLayerVisibility\<close>, from array index \<open>index\<close> on\<close>
  "visibilityLoop rx index [] s = Some s"
| "visibilityLoop rx index (r # rs) s =
     (case LAYER_CONFIG (int index + 1) of
        None \<Rightarrow> None
      | Some z \<Rightarrow>
          (let distance = \<bar>real_of_int z\<bar>;
               maxDistance = 200;
               rotationFactor = \<bar>rx\<bar> / 90;
               baseOpacity = (if int r + 1 = 3 then 1
                              else 7 / 10 + (3 / 10) * (1 - distance / maxDistance));
               adjustedOpacity = baseOpacity * (1 - rotationFactor * (3 / 10))
           in visibilityLoop rx (index + 1) rs
                (updLayer r (\<lambda>l. l\<lparr>styleOpacity := Some (max (3 / 10) adjustedOpacity)\<rparr>) s)))"

definition updateLayerVisibility :: "real \<Rightarrow> real \<Rightarrow> lm_state \<Rightarrow> lm_state option" where
  "updateLayerVisibility rx ry s = visibilityLoop rx 0 (layers s) s"

definition updateActiveLayerFromRotation :: "real \<Rightarrow> real \<Rightarrow> lm_state \<Rightarrow> lm_state" where
  "updateActiveLayerFromRotation rx ry s =
     (let absRotateX = \<bar>rx\<bar>
      in if absRotateX < 15
         then (if activeLayer s \<noteq> Some 3 then setActiveLayer 3 s else s)
         else if rx > 30
         then (if toNumber (activeLayer s) > 2
               then setActiveLayer (max 1 (toNumber (activeLayer s) - 1)) s else s)
         else if rx < - 30
         then (if toNumber (activeLayer s) < 4
               then setActiveLayer (min 5 (toNumber (activeLayer s) + 1)) s else s)
         else s)"

definition handleRotationUpdate :: "real \<Rightarrow> real \<Rightarrow> lm_state \<Rightarrow> lm_state option" where
  "handleRotationUpdate rx ry s =
     do { s1 \<leftarrow> updateLayerVisibility rx ry s;
          Some (updateActiveLayerFromRotation rx ry s1) }"

subsection \<open>Event handlers\<close>

definition handleLayerClick :: "int \<Rightarrow> lm_state \<Rightarrow> lm_state option" where
  "handleLayerClick layerIndex s =
     do { s1 \<leftarrow> (if activeLayer s = Some layerIndex then showLayerDetails layerIndex s
                else Some (setActiveLayer layerIndex s));
          Some (dispatchLayerEvent ''layerSelected'' (Some layerIndex) s1) }"

definition handleLayerHover :: "int \<Rightarrow> lm_state \<Rightarrow> lm_state option" where
  "handleLayerHover layerIndex s =
     do { s1 \<leftarrow> (if \<not> isAnimating s then highlightLayer layerIndex s else Some s);
          Some (dispatchLayerEvent ''layerHover'' (Some layerIndex) s1) }"

definition handleLayerLeave :: "int \<Rightarrow> lm_state \<Rightarrow> lm_state option" where
  "handleLayerLeave layerIndex s =
     do { s1 \<leftarrow> (if \<not> isAnimating s \<and> activeLayer s \<noteq> Some layerIndex
                then unhighlightLayer layerIndex s else Some s);
          Some (dispatchLayerEvent ''layerLeave'' (Some layerIndex) s1) }"

definition handleIndicatorClick :: "int \<Rightarrow> lm_state \<Rightarrow> lm_state option" where
  "handleIndicatorClick layerIndex s = focusOnLayer layerIndex (setActiveLayer layerIndex s)"

definition prototypeThrowing :: "string list" where
  \<comment> \<open>\<^verbatim>\<open>keyActions[e.key]\<close> also finds the members the object literal inherits from
      \<^verbatim>\<open>Object.prototype\<close>. These are the names whose value is not callable
      (\<^verbatim>\<open>__proto__\<close>) or throws a \<^verbatim>\<open>TypeError\<close> when called without a receiver. The
      inherited \<^verbatim>\<open>constructor\<close>, \<^verbatim>\<open>toString\<close> and \<^verbatim>\<open>isPrototypeOf\<close> return normally.\<close>
  "prototypeThrowing =
     [''__proto__'', ''hasOwnProperty'', ''propertyIsEnumerable'', ''toLocaleString'',
      ''valueOf'', ''__defineGetter__'', ''__defineSetter__'', ''__lookupGetter__'',
      ''__lookupSetter__'']"

definition handleKeyNavigation :: "string \<Rightarrow> bool \<Rightarrow> lm_state \<Rightarrow> lm_state option" where
  "handleKeyNavigation key shiftKey s =
     (if \<not> js_truthy (focusedLayer s) \<and> \<not> js_truthy (activeLayer s) then Some s
      else
        (let current = toNumber (js_or (focusedLayer s) (activeLayer s))
         in if key = ''Tab'' then cycleLayers (if shiftKey then - 1 else 1) s
            else if key = ''ArrowLeft'' \<or> key = ''ArrowUp'' then navigateLayer (- 1) s
            else if key = ''ArrowRight'' \<or> key = ''ArrowDown'' then navigateLayer 1 s
            else if key = ''Enter'' \<or> key = ''Space'' then showLayerDetails current s
            else if key = ''Escape'' then hideLayerDetails s
            else if key = ''Home'' then Some (setActiveLayer 1 s)
            else if key = ''End'' then Some (setActiveLayer 5 s)
            else if key \<in> set prototypeThrowing then None
            else Some s))"

subsection \<open>Construction and teardown\<close>

definition initializeLayers :: "lm_state \<Rightarrow> lm_state option" where
  \<comment> \<open>reading \<^verbatim>\<open>LAYER_CONFIG[`LAYER_${layerIndex}`].name\<close> throws beyond the fifth layer\<close>
  "initializeLayers s =
     (let s1 = s\<lparr>layers := [0..<length (layerEls s)]\<rparr>
      in if list_all (\<lambda>r. LAYER_CONFIG (int r + 1) \<noteq> None) (layers s1) then Some s1 else None)"

definition initializeIndicators :: "lm_state \<Rightarrow> lm_state" where
  "initializeIndicators s = s\<lparr>indicators := [0..<length (indicatorEls s)]\<rparr>"

definition layerListeners :: "nat \<Rightarrow> listener list" where
  "layerListeners r =
     [(LayerEl r, ''click'', bh_layerClick),
      (LayerEl r, ''mouseenter'', bh_layerHover),
      (LayerEl r, ''mouseleave'', bh_layerLeave),
      (LayerEl r, ''focus'', bh_layerFocus),
      (LayerEl r, ''blur'', bh_layerBlur)]"

definition lm_initializeEventListeners :: "lm_state \<Rightarrow> lm_state" where
  "lm_initializeEventListeners s =
     (let s1 = foldl (\<lambda>s r. foldl (\<lambda>s l. lm_listen l s) s (layerListeners r)) s (layers s);
          s2 = foldl (\<lambda>s r. lm_listenClosure (IndicatorEl r) ''keydown''
                              (lm_listen (IndicatorEl r, ''click'', bh_indicatorClick) s))
                 s1 (indicators s1);
          s3 = lm_listen (Container, ''rotationUpdate'', bh_rotationUpdate) s2
      in lm_listen (Document, ''keydown'', Bound ''handleKeyNavigation'' (lm_nextFn s3))
           (s3\<lparr>lm_nextFn := lm_nextFn s3 + 1\<rparr>))"

definition lm_fields :: "layer_el list \<Rightarrow> bool list \<Rightarrow> lm_state" where
  \<comment> \<open>the field initialisers of the constructor, over a document with the given layer and
      indicator elements; the seven \<^verbatim>\<open>boundHandlers\<close> are function objects 0 to 6\<close>
  "lm_fields els inds =
     \<lparr>layers = [], indicators = [], activeLayer = None, focusedLayer = None, isAnimating = False,
      layerEls = els, indicatorEls = inds, docOverlays = [], docFocus = None, nextNode = 0,
      lm_listeners = [], lm_nextFn = 7, lm_clock = 0, timers = [], lm_dispatched = []\<rparr>"

definition lm_construct :: "layer_el list \<Rightarrow> bool list \<Rightarrow> lm_state option" where
  "lm_construct els inds =
     do { s1 \<leftarrow> initializeLayers (lm_fields els inds);
          Some (setActiveLayer 3 (lm_initializeEventListeners (initializeIndicators s1))) }"

definition lm_destroy :: "lm_state \<Rightarrow> lm_state option" where
  "lm_destroy s =
     (let s1 = foldl (\<lambda>s r. foldl (\<lambda>s l. lm_unlisten l s) s (layerListeners r)) s (layers s);
          s2 = foldl (\<lambda>s r. lm_unlisten (IndicatorEl r, ''click'', bh_indicatorClick) s)
                 s1 (indicators s1);
          s3 = lm_unlisten (Container, ''rotationUpdate'', bh_rotationUpdate) s2
      in do { s4 \<leftarrow> hideLayerDetails s3;
              Some (s4\<lparr>layers := [], indicators := [], activeLayer := None, focusedLayer := None\<rparr>) })"

subsection \<open>The browser driving the manager\<close>

definition runTimer :: "lm_state \<Rightarrow> timer_action \<Rightarrow> lm_state" where
  "runTimer s a =
     (case a of
        ReleaseLatch \<Rightarrow> s\<lparr>isAnimating := False\<rparr>
      | RemoveOverlay n \<Rightarrow> s\<lparr>docOverlays := filter (\<lambda>ov. ov_id ov \<noteq> n) (docOverlays s)\<rparr>)"

definition elapse :: "real \<Rightarrow> lm_state \<Rightarrow> lm_state" where
  \<comment> \<open>time passes; the timers that have become due run in the order of their due times\<close>
  "elapse d s =
     (let now = lm_clock s + d;
          due = filter (\<lambda>(t, a). t \<le> now) (timers s);
          later = filter (\<lambda>(t, a). \<not> t \<le> now) (timers s)
      in foldl runTimer (s\<lparr>lm_clock := now, timers := later\<rparr>) (map snd (sort_key fst due)))"

datatype lm_op =
    Elapse real
  | LayerClick nat | LayerHover nat | LayerLeave nat
  | FocusEl nat | BlurEl
  | IndicatorClick nat
  | RotationUpdateEv real real
  | KeyNavigation string bool
  | SetActiveLayer int
  | NavigateLayer int
  | CycleLayers int
  | ShowLayerDetails int
  | HideLayerDetails
  | LmDestroy

fun lm_exec :: "lm_op \<Rightarrow> lm_state \<Rightarrow> lm_state option" where
  "lm_exec (Elapse d) s = Some (elapse d s)"
| "lm_exec (LayerClick r) s =
     (if attached (LayerEl r, ''click'', bh_layerClick) s then handleLayerClick (int r + 1) s else Some s)"
| "lm_exec (LayerHover r) s =
     (if attached (LayerEl r, ''mouseenter'', bh_layerHover) s then handleLayerHover (int r + 1) s else Some s)"
| "lm_exec (LayerLeave r) s =
     (if attached (LayerEl r, ''mouseleave'', bh_layerLeave) s then handleLayerLeave (int r + 1) s else Some s)"
| "lm_exec (FocusEl r) s = (if r < length (layerEls s) then elementFocus r s else Some s)"
| "lm_exec BlurEl s = elementBlur s"
| "lm_exec (IndicatorClick r) s =
     (if attached (IndicatorEl r, ''click'', bh_indicatorClick) s then handleIndicatorClick (int r + 1) s else Some s)"
| "lm_exec (RotationUpdateEv rx ry) s =
     (if attached (Container, ''rotationUpdate'', bh_rotationUpdate) s then handleRotationUpdate rx ry s else Some s)"
| "lm_exec (KeyNavigation key shiftKey) s = handleKeyNavigation key shiftKey s"
| "lm_exec (SetActiveLayer i) s = Some (setActiveLayer i s)"
| "lm_exec (NavigateLayer d) s = navigateLayer d s"
| "lm_exec (CycleLayers d) s = cycleLayers d s"
| "lm_exec (ShowLayerDetails i) s = showLayerDetails i s"
| "lm_exec HideLayerDetails s = hideLayerDetails s"
| "lm_exec LmDestroy s = lm_destroy s"

fun lm_run :: "lm_op list \<Rightarrow> lm_state \<Rightarrow> lm_state option" where
  "lm_run [] s = Some s"
| "lm_run (x # xs) s = (case lm_exec x s of None \<Rightarrow> None | Some s' \<Rightarrow> lm_run xs s')"

subsection \<open>Observations and well-formedness\<close>

fun idx_ok :: "int option \<Rightarrow> bool" where
  \<comment> \<open>a layer index is unset or one of 1 to 5\<close>
  "idx_ok None = True"
| "idx_ok (Some i) = (1 \<le> i \<and> i \<le> 5)"

definition sel_ok :: "lm_state \<Rightarrow> bool" where
  "sel_ok s = (idx_ok (activeLayer s) \<and> idx_ok (focusedLayer s))"

definition layers_ok :: "lm_state \<Rightarrow> bool" where
  \<comment> \<open>\<^verbatim>\<open>this.layers\<close> is as the constructor (or \<^verbatim>\<open>destroy\<close>) left it: the first elements
      of the document in order, at most five\<close>
  "layers_ok s = (layers s = [0..<length (layers s)] \<and> length (layers s) \<le> 5)"

definition focus_sync :: "lm_state \<Rightarrow> bool" where
  \<comment> \<open>\<^verbatim>\<open>this.focusedLayer\<close> mirrors the DOM focus\<close>
  "focus_sync s = (focusedLayer s = map_option (\<lambda>q. int q + 1) (docFocus s))"

definition focus_wired :: "lm_state \<Rightarrow> bool" where
  \<comment> \<open>the \<^verbatim>\<open>focus\<close> listener of every layer is attached\<close>
  "focus_wired s = list_all (\<lambda>r. attached (LayerEl r, ''focus'', bh_layerFocus) s) (layers s)"

fun open_close :: "lm_op \<Rightarrow> bool" where
  \<comment> \<open>the operation is a call of \<^verbatim>\<open>showLayerDetails\<close> or \<^verbatim>\<open>hideLayerDetails\<close>\<close>
  "open_close (ShowLayerDetails i) = True"
| "open_close HideLayerDetails = True"
| "open_close _ = False"

definition atRest :: "nat \<Rightarrow> layer_el \<Rightarrow> bool" where
  \<comment> \<open>the element at array index \<open>index\<close> has the inline style \<^verbatim>\<open>resetLayerPositions\<close> gives
      it: \<^verbatim>\<open>translateZ\<close> of its static z-offset, and no \<^verbatim>\<open>z-index\<close>\<close>
  "atRest index l =
     (case LAYER_CONFIG (int index + 1) of
        None \<Rightarrow> False
      | Some z \<Rightarrow> styleTransform l = Rest z \<and> styleZIndex l = False)"

definition positionsReset :: "lm_state \<Rightarrow> bool" where
  "positionsReset s =
     list_all (\<lambda>(index, r). atRest index (layerEls s ! r)) (zip [0..<length (layers s)] (layers s))"

definition otherStyle :: "layer_el \<Rightarrow> bool \<times> bool \<times> real option \<times> bool" where
  \<comment> \<open>what \<^verbatim>\<open>resetLayerPositions\<close> does not write\<close>
  "otherStyle l = (classActive l, styleBoxShadow l, styleOpacity l, hasContent l)"

fun plain_key :: "lm_op \<Rightarrow> bool" where
  \<comment> \<open>a key event whose key does not name a throwing member of \<^verbatim>\<open>Object.prototype\<close>\<close>
  "plain_key (KeyNavigation key shiftKey) = (key \<notin> set prototypeThrowing)"
| "plain_key _ = True"

definition activations :: "lm_state \<Rightarrow> nat" where
  \<comment> \<open>how many \<^verbatim>\<open>layerActivated\<close> events have been dispatched so far\<close>
  "activations s = length (filter (\<lambda>e. fst e = ''layerActivated'') (lm_dispatched s))"

definition claimed_nudge :: "real \<Rightarrow> int \<Rightarrow> int" where
  \<comment> \<open>the nudge of the active layer as the specification words it: one step back with floor
      1 beyond +30 degrees, one step forward with ceiling 5 beyond -30 degrees\<close>
  "claimed_nudge rx a =
     (if \<bar>rx\<bar> < 15 then 3
      else if rx > 30 then max 1 (a - 1)
      else if rx < - 30 then min 5 (a + 1)
      else a)"

subsection \<open>A document with five layers\<close>

definition plainLayer :: layer_el where
  "plainLayer = \<lparr>classActive = False, styleTransform = Unset, styleBoxShadow = False,
                 styleZIndex = False, styleOpacity = None, hasContent = True\<rparr>"

definition demoLayers :: "layer_el list" where "demoLayers = replicate 5 plainLayer"
definition demoDots :: "bool list" where "demoDots = replicate 5 False"

definition demoManager :: lm_state where
  \<comment> \<open>the manager the constructor builds over that document (lemma \<open>lm_construct_demo\<close>)\<close>
  "demoManager =
     \<lparr>layers = [0..<5], indicators = [0..<5], activeLayer = Some 3, focusedLayer = None,
      isAnimating = False,
      layerEls = demoLayers[2 := plainLayer\<lparr>classActive := True\<rparr>],
      indicatorEls = demoDots[2 := True], docOverlays = [], docFocus = None, nextNode = 0,
      lm_listeners =
        concat (map layerListeners [0..<5]) @
        concat (map (\<lambda>r. [(IndicatorEl r, ''click'', bh_indicatorClick),
                           (IndicatorEl r, ''keydown'', Closure (7 + r))]) [0..<5]) @
        [(Container, ''rotationUpdate'', bh_rotationUpdate),
         (Document, ''keydown'', Bound ''handleKeyNavigation'' 12)],
      lm_nextFn = 13, lm_clock = 0, timers = [],
      lm_dispatched = [(''layerActivated'', Some 3, Some 3, None)]\<rparr>"

section \<open>RotationController: facts about the constructed instance\<close>

lemmas rc_listen_defs =
  initializeEventListeners_def rc_listenBound_def rc_listenClosure_def rc_listen_def
  addEventListener_def

lemma rc_construct_eq:
  "rc_construct now =
     \<lparr>rotateX = 0, rotateY = 0, velocityX = 0, velocityY = 0, scale = 1,
      isDragging = False, isZooming = False, lastDistance = 0, animationId = Some 1,
      sensitivity = ROTATION_SENSITIVITY, touchSensitivity = ROTATION_SENSITIVITY * (8 / 10),
      lastUpdateTime = 0, pointerEvents = True,
      clock = now, frameQueue = [(1, LoopAnimate)], nextHandle = 2,
      rc_listeners =
        [(Container, ''mousedown'', Bound ''handleMouseDown'' 0),
         (Document, ''mousemove'', Bound ''handleMouseMove'' 1),
         (Document, ''mouseup'', Bound ''handleMouseUp'' 2),
         (LayersWrapper, ''wheel'', Bound ''handleWheel'' 3),
         (Container, ''touchstart'', Bound ''handleTouchStart'' 4),
         (Document, ''touchmove'', Bound ''handleTouchMove'' 5),
         (Document, ''touchend'', Bound ''handleTouchEnd'' 6),
         (Document, ''keydown'', Bound ''handleKeyDown'' 7),
         (Container, ''contextmenu'', Closure 8),
         (Window, ''resize'', Bound ''handleResize'' 9),
         (Container, ''dragstart'', Closure 10)],
      rc_nextFn = 11, wrapperTransform = Some (0, 0, 1),
      rc_dispatched = [RotationUpdate 0 0 1]\<rparr>"
  by (simp add: rc_construct_def rc_fields_def startAnimationLoop_def loopAnimate_def
      requestAnimationFrame_def momentumStep_def applyTransform_def rc_listen_defs)

section \<open>Zoom: what \<^verbatim>\<open>updateZoom\<close> changes and what it leaves alone\<close>

lemma clampScale_at_max: "0 \<le> d \<Longrightarrow> clampScale (maxScale + d) = maxScale"
  by (simp add: clampScale_def minScale_def maxScale_def)

lemma clampScale_at_min: "d \<le> 0 \<Longrightarrow> clampScale (minScale + d) = minScale"
  by (simp add: clampScale_def minScale_def maxScale_def)

text \<open>
  Claim C10. Whenever clamping \<open>scale + delta\<close> to \<open>[minScale, maxScale]\<close> gives the current
  scale again (in particular zooming in further at \<open>maxScale\<close> or out further at
  \<open>minScale\<close>), \<^verbatim>\<open>updateZoom(delta)\<close> returns the state it was given: no field changes, no
  transform is applied and nothing is dispatched. Otherwise the scale becomes the clamped
  value, the transform is applied and one \<^verbatim>\<open>rotationUpdate\<close> followed by one
  \<^verbatim>\<open>zoomUpdate\<close> is dispatched. So the number of \<^verbatim>\<open>zoomUpdate\<close> events grows by one
  exactly when the stored scale changes.
\<close>

theorem updateZoom_frame:
  "(clampScale (scale s + delta) = scale s \<longrightarrow> updateZoom delta s = s) \<and>
   (scale s = maxScale \<and> 0 \<le> delta \<longrightarrow> updateZoom delta s = s) \<and>
   (scale s = minScale \<and> delta \<le> 0 \<longrightarrow> updateZoom delta s = s) \<and>
   (clampScale (scale s + delta) \<noteq> scale s \<longrightarrow>
      scale (updateZoom delta s) = clampScale (scale s + delta) \<and>
      wrapperTransform (updateZoom delta s) =
        Some (rotateX s, rotateY s, clampScale (scale s + delta)) \<and>
      rc_dispatched (updateZoom delta s) =
        rc_dispatched s @ [RotationUpdate (rotateX s) (rotateY s) (clampScale (scale s + delta)),
                           ZoomUpdate (clampScale (scale s + delta)) minScale maxScale]) \<and>
   zoomUpdates (updateZoom delta s) =
     zoomUpdates s + (if scale (updateZoom delta s) \<noteq> scale s then 1 else 0)"
  by (auto simp: updateZoom_def Let_def applyTransform_def zoomUpdates_def
        clampScale_at_max clampScale_at_min)

theorem updateZoom_frame_witness:
  "scale (setScale 2 False (rc_construct 0)) = maxScale \<and> (0::real) \<le> 1 / 2 \<and>
   updateZoom (1 / 2) (setScale 2 False (rc_construct 0)) = setScale 2 False (rc_construct 0) \<and>
   clampScale (scale (rc_construct 0) + 1 / 2) \<noteq> scale (rc_construct 0) \<and>
   scale (updateZoom (1 / 2) (rc_construct 0)) = 3 / 2 \<and>
   zoomUpdates (updateZoom (1 / 2) (rc_construct 0)) = 1"
proof -
  have top: "scale (setScale 2 False (rc_construct 0)) = maxScale"
    by (simp add: setScale_def applyTransform_def clampScale_def minScale_def maxScale_def
        rc_construct_eq)
  have moved: "clampScale (scale (rc_construct 0) + 1 / 2) = 3 / 2" "scale (rc_construct 0) = 1"
    "zoomUpdates (rc_construct 0) = 0"
    by (simp_all add: clampScale_def minScale_def maxScale_def rc_construct_eq zoomUpdates_def)
  show ?thesis
    using updateZoom_frame [of "setScale 2 False (rc_construct 0)" "1 / 2"]
      updateZoom_frame [of "rc_construct 0" "1 / 2"] top moved
    by simp
qed

section \<open>Momentum\<close>

lemma loopAnimate_fields:
  "rotateX (loopAnimate s) = rotateX (momentumStep s)"
  "rotateY (loopAnimate s) = rotateY (momentumStep s)"
  "velocityX (loopAnimate s) = velocityX (momentumStep s)"
  "velocityY (loopAnimate s) = velocityY (momentumStep s)"
  "isDragging (loopAnimate s) = isDragging (momentumStep s)"
  "scale (loopAnimate s) = scale (momentumStep s)"
  "clock (loopAnimate s) = clock (momentumStep s)"
  "wrapperTransform (loopAnimate s) = wrapperTransform (momentumStep s)"
  "rc_dispatched (loopAnimate s) = rc_dispatched (momentumStep s)"
  by (simp_all add: loopAnimate_def requestAnimationFrame_def)

lemma momentumStep_isDragging [simp]: "isDragging (momentumStep s) = isDragging s"
  by (simp add: momentumStep_def applyRotation_def applyTransform_def)



lemma loopAnimate_not_dragging: "\<not> isDragging s \<Longrightarrow> \<not> isDragging ((loopAnimate ^^ n) s)"
  by (induction n) (simp_all add: loopAnimate_fields)









section \<open>The scale stays within its clamp\<close>

lemma clampScale_range: "minScale \<le> clampScale x \<and> clampScale x \<le> maxScale"
  by (simp add: clampScale_def minScale_def maxScale_def)

lemma easeOut_range: "0 \<le> p \<Longrightarrow> p \<le> 1 \<Longrightarrow> 0 \<le> easeOut p \<and> easeOut p \<le> 1"
proof -
  assume "0 \<le> p" "p \<le> 1"
  then have "0 \<le> 1 - p" "1 - p \<le> 1" by simp_all
  then have "0 \<le> (1 - p) ^ 3" "(1 - p) ^ 3 \<le> 1"
    by (simp_all add: power_le_one)
  then show ?thesis by (simp add: easeOut_def)
qed

lemma between:
  fixes a b e lo hi :: real
  assumes "lo \<le> a" "a \<le> hi" "lo \<le> b" "b \<le> hi" "0 \<le> e" "e \<le> 1"
  shows "lo \<le> a + (b - a) * e \<and> a + (b - a) * e \<le> hi"
proof (cases "a \<le> b")
  case True
  then have "0 \<le> (b - a) * e" "(b - a) * e \<le> b - a"
    using assms(5,6) by (simp_all add: mult_left_le)
  with assms show ?thesis by linarith
next
  case False
  then have "b - a \<le> 0" by simp
  then have "(b - a) * e \<le> 0" "b - a \<le> (b - a) * e"
    using assms(5,6) mult_left_mono_neg [of e 1 "b - a"] by (simp_all add: mult_nonpos_nonneg)
  with assms show ?thesis by linarith
qed

lemma progress_range:
  "st \<le> t \<Longrightarrow> 0 \<le> min ((t - st) / TRANSITION_DURATION) 1 \<and> min ((t - st) / TRANSITION_DURATION) 1 \<le> 1"
  by (simp add: TRANSITION_DURATION_def)

lemma raf_fields:
  "scale (snd (requestAnimationFrame cb s)) = scale s"
  "clock (snd (requestAnimationFrame cb s)) = clock s"
  "rotateX (snd (requestAnimationFrame cb s)) = rotateX s"
  "frameQueue (snd (requestAnimationFrame cb s)) = frameQueue s @ [(nextHandle s, cb)]"
  by (simp_all add: requestAnimationFrame_def)

lemma applyTransform_fields:
  "scale (applyTransform s) = scale s"
  "clock (applyTransform s) = clock s"
  "rotateX (applyTransform s) = rotateX s"
  "frameQueue (applyTransform s) = frameQueue s"
  by (simp_all add: applyTransform_def)

lemma scale_inv_raf:
  "scale_inv s \<Longrightarrow> scale_cb_ok (clock s) cb \<Longrightarrow> scale_inv (snd (requestAnimationFrame cb s))"
  by (simp add: scale_inv_def scale_ok_def raf_fields)

lemma scale_inv_same:
  "scale_inv s \<Longrightarrow> scale s' = scale s \<Longrightarrow> clock s' = clock s \<Longrightarrow> frameQueue s' = frameQueue s
   \<Longrightarrow> scale_inv s'"
  by (simp add: scale_inv_def scale_ok_def)

lemma scale_inv_set:
  "scale_inv s \<Longrightarrow> minScale \<le> scale s' \<Longrightarrow> scale s' \<le> maxScale \<Longrightarrow> clock s' = clock s
   \<Longrightarrow> frameQueue s' = frameQueue s \<Longrightarrow> scale_inv s'"
  by (simp add: scale_inv_def scale_ok_def)

lemma scale_inv_applyTransform: "scale_inv s \<Longrightarrow> scale_inv (applyTransform s)"
  by (rule scale_inv_same) (simp_all add: applyTransform_fields)

lemma scale_inv_animateToScale:
  "scale_inv s \<Longrightarrow> minScale \<le> t \<Longrightarrow> t \<le> maxScale \<Longrightarrow> scale_inv (animateToScale t s)"
  unfolding animateToScale_def
  by (rule scale_inv_raf) (simp_all add: scale_inv_def scale_ok_def)

lemma scale_inv_animateToRotation: "scale_inv s \<Longrightarrow> scale_inv (animateToRotation x y s)"
  unfolding animateToRotation_def by (rule scale_inv_raf) simp_all

lemma scale_inv_updateZoom: "scale_inv s \<Longrightarrow> scale_inv (updateZoom d s)"
  using clampScale_range [of "scale s + d"]
  by (auto simp: updateZoom_def Let_def applyTransform_def scale_inv_def scale_ok_def)

lemma scale_inv_setScale: "scale_inv s \<Longrightarrow> scale_inv (setScale x animate s)"
proof (cases animate)
  case True
  assume "scale_inv s"
  with True clampScale_range [of x] show ?thesis
    by (simp add: setScale_def Let_def scale_inv_animateToScale)
next
  case False
  assume "scale_inv s"
  with False clampScale_range [of x] show ?thesis
    by (simp add: setScale_def Let_def applyTransform_def scale_inv_def scale_ok_def)
qed

lemma scale_inv_updateRotation: "scale_inv s \<Longrightarrow> scale_inv (updateRotation dx dy sens s)"
  by (rule scale_inv_same)
     (simp_all add: updateRotation_def Let_def applyRotation_def applyTransform_def)

lemma scale_inv_rotateWithAnimation: "scale_inv s \<Longrightarrow> scale_inv (rotateWithAnimation dy dx s)"
  by (simp add: rotateWithAnimation_def Let_def scale_inv_animateToRotation)

lemma scale_inv_setRotation: "scale_inv s \<Longrightarrow> scale_inv (setRotation x y animate s)"
proof (cases animate)
  case True
  assume "scale_inv s"
  with True show ?thesis by (simp add: setRotation_def scale_inv_animateToRotation)
next
  case False
  assume "scale_inv s"
  with False show ?thesis
    by (simp add: setRotation_def applyTransform_def scale_inv_def scale_ok_def)
qed

lemma one_in_range: "minScale \<le> 1" "1 \<le> maxScale"
  by (simp_all add: minScale_def maxScale_def)

lemma scale_inv_resets:
  assumes "scale_inv s"
  shows "scale_inv (resetZoom s)" "scale_inv (resetRotation s)" "scale_inv (resetAll s)"
proof -
  show "scale_inv (resetZoom s)"
    by (simp add: resetZoom_def scale_inv_animateToScale assms one_in_range)
  have "scale_inv (animateToRotation 0 0 s)" by (rule scale_inv_animateToRotation [OF assms])
  then show "scale_inv (resetRotation s)"
    by (simp add: resetRotation_def scale_inv_def scale_ok_def)
  have "scale_inv (animateToScale 1 (animateToRotation 0 0 s))"
    by (simp add: scale_inv_animateToScale scale_inv_animateToRotation assms one_in_range)
  then show "scale_inv (resetAll s)"
    by (simp add: resetAll_def scale_inv_def scale_ok_def)
qed

lemma scale_inv_handlers:
  assumes "scale_inv s"
  shows "scale_inv (setEnabled b s)" "scale_inv (handleMouseUp s)" "scale_inv (handleWheel dy s)"
    "scale_inv (handleTouchStart ts s)" "scale_inv (handleTouchEnd ts s)"
    "scale_inv (handleResize w s)" "scale_inv (handleKeyDown code s)"
proof -
  from assms show "scale_inv (setEnabled b s)"
    by (simp add: setEnabled_def scale_inv_def scale_ok_def)
  from assms show "scale_inv (handleMouseUp s)"
    by (simp add: handleMouseUp_def scale_inv_def scale_ok_def)
  from assms show "scale_inv (handleWheel dy s)"
    by (simp add: handleWheel_def Let_def scale_inv_updateZoom)
  from assms show "scale_inv (handleTouchStart ts s)"
    by (auto simp: handleTouchStart_def scale_inv_def scale_ok_def split: list.splits)
  from assms show "scale_inv (handleTouchEnd ts s)"
    by (auto simp: handleTouchEnd_def scale_inv_def scale_ok_def split: list.splits)
  from assms show "scale_inv (handleResize w s)"
    by (simp add: handleResize_def scale_inv_def scale_ok_def)
  from assms show "scale_inv (handleKeyDown code s)"
    by (simp add: handleKeyDown_def scale_inv_rotateWithAnimation scale_inv_resets)
qed

lemma scale_inv_handleTouchMove: "scale_inv s \<Longrightarrow> scale_inv (handleTouchMove ts s)"
proof -
  assume inv: "scale_inv s"
  let ?s1 = "s\<lparr>lastUpdateTime := clock s\<rparr>"
  from inv have inv1: "scale_inv ?s1" by (simp add: scale_inv_def scale_ok_def)
  have z: "scale_inv ((updateZoom d ?s1)\<lparr>lastDistance := x\<rparr>)" for d x
    using scale_inv_updateZoom [OF inv1, of d] by (simp add: scale_inv_def scale_ok_def)
  from inv inv1 z show ?thesis
    by (simp add: handleTouchMove_def Let_def split: list.splits)
qed

lemma scale_inv_destroy: "scale_inv s \<Longrightarrow> scale_inv (rc_destroy s)"
  by (auto simp: rc_destroy_def Let_def rc_unlisten_def cancelAnimationFrame_def scale_inv_def
      scale_ok_def list_all_iff split: option.splits)

lemma scale_inv_advance: "0 \<le> d \<Longrightarrow> scale_inv s \<Longrightarrow> scale_inv (s\<lparr>clock := clock s + d\<rparr>)"
proof -
  assume d: "0 \<le> d" and inv: "scale_inv s"
  have "scale_cb_ok (clock s) cb \<Longrightarrow> scale_cb_ok (clock s + d) cb" for cb
    using d by (cases cb) auto
  with inv show ?thesis by (auto simp: scale_inv_def scale_ok_def list_all_iff)
qed


lemma scale_inv_loopAnimate: "scale_inv s \<Longrightarrow> scale_inv (loopAnimate s)"
proof -
  assume inv: "scale_inv s"
  have "scale_inv (momentumStep s)"
    by (rule scale_inv_same [OF inv])
       (simp_all add: momentumStep_def applyRotation_def applyTransform_def)
  from scale_inv_raf [OF this, of LoopAnimate] show ?thesis
    by (simp add: loopAnimate_def split_beta scale_inv_def scale_ok_def)
qed

lemma scale_inv_rotAnimate:
  "scale_inv s \<Longrightarrow> scale_inv (rotAnimate sx sy tx ty st (clock s) s)"
proof -
  assume inv: "scale_inv s"
  define p where "p = min ((clock s - st) / TRANSITION_DURATION) 1"
  define s1 where "s1 = applyRotation
     (s\<lparr>rotateX := sx + (tx - sx) * easeOut p, rotateY := sy + (ty - sy) * easeOut p\<rparr>)"
  have eq: "rotAnimate sx sy tx ty st (clock s) s =
             (if p < 1 then snd (requestAnimationFrame (RotAnimate sx sy tx ty st) s1) else s1)"
    by (simp only: rotAnimate_def Let_def s1_def p_def)
  have inv1: "scale_inv s1"
    using inv by (simp add: s1_def applyRotation_def applyTransform_def scale_inv_def scale_ok_def)
  have "scale_inv (snd (requestAnimationFrame (RotAnimate sx sy tx ty st) s1))"
    by (rule scale_inv_raf [OF inv1]) simp
  with inv1 show ?thesis unfolding eq by simp
qed

lemma scale_inv_scaleAnimate:
  assumes inv: "scale_inv s" and cb: "scale_cb_ok (clock s) (ScaleAnimate ss ts st)"
  shows "scale_inv (scaleAnimate ss ts st (clock s) s)"
proof -
  define p where "p = min ((clock s - st) / TRANSITION_DURATION) 1"
  define e where "e = easeOut p"
  define s1 where "s1 = applyTransform (s\<lparr>scale := ss + (ts - ss) * e\<rparr>)"
  have eq: "scaleAnimate ss ts st (clock s) s =
             (if p < 1 then snd (requestAnimationFrame (ScaleAnimate ss ts st) s1) else s1)"
    by (simp only: scaleAnimate_def Let_def s1_def e_def p_def)
  from cb have r: "minScale \<le> ss" "ss \<le> maxScale" "minScale \<le> ts" "ts \<le> maxScale" "st \<le> clock s"
    by simp_all
  from progress_range [OF r(5)] have "0 \<le> e \<and> e \<le> 1"
    unfolding e_def p_def by (intro easeOut_range) simp_all
  with between [OF r(1-4), of e] have b: "minScale \<le> ss + (ts - ss) * e" "ss + (ts - ss) * e \<le> maxScale"
    by simp_all
  have inv1: "scale_inv s1" and c1: "clock s1 = clock s"
    using inv b by (simp_all add: s1_def applyTransform_def scale_inv_def scale_ok_def)
  from cb c1 have "scale_cb_ok (clock s1) (ScaleAnimate ss ts st)" by simp
  from scale_inv_raf [OF inv1 this] inv1 show ?thesis
    unfolding eq by simp
qed

lemma runCallback_clock: "clock (runCallback t s cb) = clock s"
  by (cases cb)
     (simp_all add: runCallback_def loopAnimate_def momentumStep_def rotAnimate_def
        scaleAnimate_def requestAnimationFrame_def applyRotation_def applyTransform_def
        Let_def split_beta)

lemma scale_inv_runCallback:
  "scale_inv s \<Longrightarrow> scale_cb_ok (clock s) cb \<Longrightarrow> scale_inv (runCallback (clock s) s cb)"
  by (cases cb)
     (simp_all add: runCallback_def scale_inv_loopAnimate scale_inv_rotAnimate
        scale_inv_scaleAnimate)

lemma scale_inv_callbacks:
  "scale_inv s \<Longrightarrow> clock s = t \<Longrightarrow> list_all (scale_cb_ok t) cbs \<Longrightarrow>
   scale_inv (foldl (runCallback t) s cbs)"
proof (induction cbs arbitrary: s)
  case Nil
  then show ?case by simp
next
  case (Cons cb cbs)
  from Cons.prems have "scale_inv (runCallback t s cb)"
    using scale_inv_runCallback [of s cb] by simp
  moreover from Cons.prems have "clock (runCallback t s cb) = t"
    by (simp add: runCallback_clock)
  ultimately show ?case using Cons.IH Cons.prems by simp
qed

lemma scale_inv_runFrame: "scale_inv s \<Longrightarrow> scale_inv (runFrame s)"
proof -
  assume inv: "scale_inv s"
  then have "scale_inv (s\<lparr>frameQueue := []\<rparr>)" by (simp add: scale_inv_def scale_ok_def)
  moreover from inv have "list_all (scale_cb_ok (clock s)) (map snd (frameQueue s))"
    by (simp add: scale_inv_def)
  ultimately show ?thesis
    unfolding runFrame_def by (intro scale_inv_callbacks) simp_all
qed

lemma scale_inv_exec: "time_forward x \<Longrightarrow> scale_inv s \<Longrightarrow> scale_inv (rc_exec s x)"
  by (cases x)
     (simp_all add: scale_inv_advance scale_inv_runFrame scale_inv_updateRotation
        scale_inv_rotateWithAnimation scale_inv_setRotation scale_inv_resets scale_inv_updateZoom
        scale_inv_setScale scale_inv_handlers scale_inv_handleTouchMove scale_inv_destroy)

lemma scale_inv_run:
  "list_all time_forward ops \<Longrightarrow> scale_inv s \<Longrightarrow> scale_inv (rc_run ops s)"
  unfolding rc_run_def
  by (induction ops arbitrary: s) (simp_all add: scale_inv_exec)

lemma scale_inv_construct: "scale_inv (rc_construct now)"
  by (simp add: scale_inv_def scale_ok_def rc_construct_eq minScale_def maxScale_def)

text \<open>
  In exact arithmetic, and with a clock that does not run backwards, the scale stays in
  \<open>[minScale, maxScale]\<close> after every prefix of every sequence of operations and frames from
  the constructor. This is a fact about the real-number model only: the next section shows
  that the rounding of doubles takes the last frame of an animation out of the interval.
\<close>

theorem scale_always_clamped:
  assumes "list_all time_forward ops"
  shows "minScale \<le> scale (rc_run (take n ops) (rc_construct now)) \<and>
         scale (rc_run (take n ops) (rc_construct now)) \<le> maxScale \<and>
         minScale = 2 / 10 \<and> maxScale = 2"
proof -
  from assms have "list_all time_forward (take n ops)"
    by (auto simp: list_all_iff dest: in_set_takeD)
  from scale_inv_run [OF this scale_inv_construct] show ?thesis
    by (simp add: scale_inv_def scale_ok_def minScale_def maxScale_def)
qed

theorem scale_always_clamped_witness:
  "list_all time_forward
     [SetScale 5 True, Advance 100, Frame, HandleWheel (- 3000), UpdateZoom 7, Advance 250, Frame] \<and>
   minScale \<le> scale (rc_run (take 7
     [SetScale 5 True, Advance 100, Frame, HandleWheel (- 3000), UpdateZoom 7, Advance 250, Frame])
     (rc_construct 0)) \<and>
   scale (rc_run (take 7
     [SetScale 5 True, Advance 100, Frame, HandleWheel (- 3000), UpdateZoom 7, Advance 250, Frame])
     (rc_construct 0)) \<le> maxScale"
proof -
  have fwd: "list_all time_forward
     [SetScale 5 True, Advance 100, Frame, HandleWheel (- 3000), UpdateZoom 7, Advance 250, Frame]"
    by simp
  from scale_always_clamped [OF fwd, of 7 0] fwd show ?thesis by blast
qed

section \<open>Animated \<^verbatim>\<open>setScale\<close> in double precision\<close>

lemma minScaleD_value: "minScaleD = (7205759403792794, - 55)"
  by code_simp

lemma clamped_target_value: "clampScaleD (litD 2 10) = minScaleD"
  by code_simp

lemma last_frame_value:
  "animateD (numD 1) (clampScaleD (litD 2 10)) (numD 0) (numD 300) = (1801439850948198, - 53)"
  by code_simp

text \<open>
  Claim C5 at its failing input. \<^verbatim>\<open>setScale(0.2)\<close> on a fresh controller (scale 1, animation
  by default) clamps the target to the double 0.2 and animates towards it. The frame 300 ms
  after the start has progress 1 and stores \<open>1 + (0.2 - 1) * 1\<close>: the difference rounds to
  \<open>-0.8000000000000000444\<close> (a tie, resolved to the even significand), and the sum is
  \<open>1801439850948198 / 2 ^ 53 = 0.19999999999999996\<close>, below \<^verbatim>\<open>minScale\<close>, the double
  \<open>3602879701896397 / 2 ^ 54\<close> nearest to 0.2. The scale stays there once the animation
  has ended.
\<close>

theorem animated_setScale_ends_below_minScale:
  "animateD (numD 1) (clampScaleD (litD 2 10)) (numD 0) (numD 300) = (1801439850948198, - 53) \<and>
   valD (animateD (numD 1) (clampScaleD (litD 2 10)) (numD 0) (numD 300))
     = 1801439850948198 / 2 ^ 53 \<and>
   valD minScaleD = 3602879701896397 / 2 ^ 54 \<and>
   lessD (animateD (numD 1) (clampScaleD (litD 2 10)) (numD 0) (numD 300)) minScaleD \<and>
   valD (animateD (numD 1) (clampScaleD (litD 2 10)) (numD 0) (numD 300)) < valD minScaleD"
  unfolding last_frame_value minScaleD_value by (simp add: valD_def lessD_def exactAdd_def)

text \<open>
  The same expression takes an animated rotation past its clamp: from \<open>rotateX = -89.8\<close>
  towards the clamped target 90, the last frame stores \<open>90.00000000000001\<close>.
\<close>

lemma animated_rotation_ends_above_90:
  "animateD (litD (- 898) 10) (clampXD (numD 90)) (numD 0) (numD 300) = (6333186975989761, - 46) \<and>
   lessD (numD 90) (animateD (litD (- 898) 10) (clampXD (numD 90)) (numD 0) (numD 300))"
  by code_simp

section \<open>The rotation clamp and animated \<^verbatim>\<open>setRotation\<close>\<close>

lemmas rc_eval_defs =
  rc_run_def rc_construct_eq setRotation_def animateToRotation_def requestAnimationFrame_def
  runFrame_def runCallback_def rotAnimate_def loopAnimate_def momentumStep_def easeOut_def
  applyRotation_def applyTransform_def TRANSITION_DURATION_def Let_def

text \<open>
  Claim C2 at its failing input. \<^verbatim>\<open>setRotation(200, 0, true)\<close> on a fresh controller hands
  the unclamped target to \<^verbatim>\<open>animateToRotation\<close>; the frame 300 ms later (progress 1) stores
  \<open>rotateX = 200\<close>, outside \<open>[-90, 90]\<close>, and half-way through the animation the stored
  value is already 175. The same call without animation clamps to 90.
\<close>

theorem setRotation_animated_unclamped:
  "rotateX (rc_run [SetRotation 200 0 True, Advance 300, Frame] (rc_construct 0)) = 200 \<and>
   rotateX (rc_run [SetRotation 200 0 True, Advance 150, Frame] (rc_construct 0)) = 175 \<and>
   rotateX (rc_run [SetRotation 200 0 False] (rc_construct 0)) = 90 \<and>
   MAX_ROTATION_X = 90"
  by (simp add: rc_eval_defs power3_eq_cube clampX_def MAX_ROTATION_X_def)

lemma clampX_range: "- MAX_ROTATION_X \<le> clampX x \<and> clampX x \<le> MAX_ROTATION_X"
  by (simp add: clampX_def MAX_ROTATION_X_def)

lemma zero_in_range: "- MAX_ROTATION_X \<le> 0" "0 \<le> MAX_ROTATION_X"
  by (simp_all add: MAX_ROTATION_X_def)

lemma rot_inv_raf:
  "rot_inv s \<Longrightarrow> rot_cb_ok (clock s) cb \<Longrightarrow> rot_inv (snd (requestAnimationFrame cb s))"
  by (simp add: rot_inv_def rot_ok_def raf_fields)

lemma rot_inv_same:
  "rot_inv s \<Longrightarrow> rotateX s' = rotateX s \<Longrightarrow> clock s' = clock s \<Longrightarrow> frameQueue s' = frameQueue s
   \<Longrightarrow> rot_inv s'"
  by (simp add: rot_inv_def rot_ok_def)

lemma rot_inv_animateToRotation:
  "rot_inv s \<Longrightarrow> - MAX_ROTATION_X \<le> x \<Longrightarrow> x \<le> MAX_ROTATION_X \<Longrightarrow>
   rot_inv (animateToRotation x y s)"
  unfolding animateToRotation_def
  by (rule rot_inv_raf) (simp_all add: rot_inv_def rot_ok_def)

lemma rot_inv_animateToScale: "rot_inv s \<Longrightarrow> rot_inv (animateToScale t s)"
  unfolding animateToScale_def by (rule rot_inv_raf) simp_all

lemma rot_inv_updateZoom: "rot_inv s \<Longrightarrow> rot_inv (updateZoom d s)"
  by (auto simp: updateZoom_def Let_def applyTransform_def rot_inv_def rot_ok_def)

lemma rot_inv_setScale: "rot_inv s \<Longrightarrow> rot_inv (setScale x animate s)"
proof (cases animate)
  case True
  assume "rot_inv s"
  with True show ?thesis by (simp add: setScale_def Let_def rot_inv_animateToScale)
next
  case False
  assume "rot_inv s"
  with False show ?thesis
    by (simp add: setScale_def Let_def applyTransform_def rot_inv_def rot_ok_def)
qed

lemma rot_inv_updateRotation: "rot_inv s \<Longrightarrow> rot_inv (updateRotation dx dy sens s)"
  using clampX_range [of "rotateX s - dy * sens"]
  by (simp add: updateRotation_def Let_def applyRotation_def applyTransform_def rot_inv_def
      rot_ok_def)

lemma rot_inv_rotateWithAnimation: "rot_inv s \<Longrightarrow> rot_inv (rotateWithAnimation dy dx s)"
  using clampX_range [of "rotateX s + dx"]
  by (simp add: rotateWithAnimation_def Let_def rot_inv_animateToRotation)

lemma rot_inv_setRotation:
  assumes "rot_inv s" and "target_in_range (SetRotation x y animate)"
  shows "rot_inv (setRotation x y animate s)"
proof (cases animate)
  case True
  with assms show ?thesis by (simp add: setRotation_def rot_inv_animateToRotation)
next
  case False
  with assms(1) clampX_range [of x] show ?thesis
    by (simp add: setRotation_def applyTransform_def rot_inv_def rot_ok_def)
qed

lemma rot_inv_resets:
  assumes "rot_inv s"
  shows "rot_inv (resetZoom s)" "rot_inv (resetRotation s)" "rot_inv (resetAll s)"
proof -
  show "rot_inv (resetZoom s)"
    by (simp add: resetZoom_def rot_inv_animateToScale assms)
  have r: "rot_inv (animateToRotation 0 0 s)"
    by (simp add: rot_inv_animateToRotation assms zero_in_range)
  then show "rot_inv (resetRotation s)"
    by (simp add: resetRotation_def rot_inv_def rot_ok_def)
  from r have "rot_inv (animateToScale 1 (animateToRotation 0 0 s))"
    by (rule rot_inv_animateToScale)
  then show "rot_inv (resetAll s)"
    by (simp add: resetAll_def rot_inv_def rot_ok_def)
qed

lemma rot_inv_handlers:
  assumes "rot_inv s"
  shows "rot_inv (setEnabled b s)" "rot_inv (handleMouseUp s)" "rot_inv (handleWheel dy s)"
    "rot_inv (handleTouchStart ts s)" "rot_inv (handleTouchEnd ts s)"
    "rot_inv (handleResize w s)" "rot_inv (handleKeyDown code s)"
proof -
  from assms show "rot_inv (setEnabled b s)"
    by (simp add: setEnabled_def rot_inv_def rot_ok_def)
  from assms show "rot_inv (handleMouseUp s)"
    by (simp add: handleMouseUp_def rot_inv_def rot_ok_def)
  from assms show "rot_inv (handleWheel dy s)"
    by (simp add: handleWheel_def Let_def rot_inv_updateZoom)
  from assms show "rot_inv (handleTouchStart ts s)"
    by (auto simp: handleTouchStart_def rot_inv_def rot_ok_def split: list.splits)
  from assms show "rot_inv (handleTouchEnd ts s)"
    by (auto simp: handleTouchEnd_def rot_inv_def rot_ok_def split: list.splits)
  from assms show "rot_inv (handleResize w s)"
    by (simp add: handleResize_def rot_inv_def rot_ok_def)
  from assms show "rot_inv (handleKeyDown code s)"
    by (simp add: handleKeyDown_def rot_inv_rotateWithAnimation rot_inv_resets)
qed

lemma rot_inv_handleTouchMove: "rot_inv s \<Longrightarrow> rot_inv (handleTouchMove ts s)"
proof -
  assume inv: "rot_inv s"
  let ?s1 = "s\<lparr>lastUpdateTime := clock s\<rparr>"
  from inv have inv1: "rot_inv ?s1" by (simp add: rot_inv_def rot_ok_def)
  have z: "rot_inv ((updateZoom d ?s1)\<lparr>lastDistance := x\<rparr>)" for d x
    using rot_inv_updateZoom [OF inv1, of d] by (simp add: rot_inv_def rot_ok_def)
  from inv inv1 z show ?thesis
    by (simp add: handleTouchMove_def Let_def split: list.splits)
qed

lemma rot_inv_destroy: "rot_inv s \<Longrightarrow> rot_inv (rc_destroy s)"
  by (auto simp: rc_destroy_def Let_def rc_unlisten_def cancelAnimationFrame_def rot_inv_def
      rot_ok_def list_all_iff split: option.splits)

lemma rot_inv_advance: "0 \<le> d \<Longrightarrow> rot_inv s \<Longrightarrow> rot_inv (s\<lparr>clock := clock s + d\<rparr>)"
proof -
  assume d: "0 \<le> d" and inv: "rot_inv s"
  have "rot_cb_ok (clock s) cb \<Longrightarrow> rot_cb_ok (clock s + d) cb" for cb
    using d by (cases cb) auto
  with inv show ?thesis by (auto simp: rot_inv_def rot_ok_def list_all_iff)
qed

lemma rot_inv_loopAnimate: "rot_inv s \<Longrightarrow> rot_inv (loopAnimate s)"
proof -
  assume inv: "rot_inv s"
  have "rot_inv (momentumStep s)"
    using inv clampX_range [of "rotateX s + velocityX s"]
    by (simp add: momentumStep_def applyRotation_def applyTransform_def rot_inv_def rot_ok_def)
  from rot_inv_raf [OF this, of LoopAnimate] show ?thesis
    by (simp add: loopAnimate_def split_beta rot_inv_def rot_ok_def)
qed

lemma rot_inv_scaleAnimate: "rot_inv s \<Longrightarrow> rot_inv (scaleAnimate ss ts st (clock s) s)"
proof -
  assume inv: "rot_inv s"
  define p where "p = min ((clock s - st) / TRANSITION_DURATION) 1"
  define s1 where "s1 = applyTransform (s\<lparr>scale := ss + (ts - ss) * easeOut p\<rparr>)"
  have eq: "scaleAnimate ss ts st (clock s) s =
             (if p < 1 then snd (requestAnimationFrame (ScaleAnimate ss ts st) s1) else s1)"
    by (simp only: scaleAnimate_def Let_def s1_def p_def)
  have inv1: "rot_inv s1"
    using inv by (simp add: s1_def applyTransform_def rot_inv_def rot_ok_def)
  have "rot_inv (snd (requestAnimationFrame (ScaleAnimate ss ts st) s1))"
    by (rule rot_inv_raf [OF inv1]) simp
  with inv1 show ?thesis unfolding eq by simp
qed

lemma rot_inv_rotAnimate:
  assumes inv: "rot_inv s" and cb: "rot_cb_ok (clock s) (RotAnimate sx sy tx ty st)"
  shows "rot_inv (rotAnimate sx sy tx ty st (clock s) s)"
proof -
  define p where "p = min ((clock s - st) / TRANSITION_DURATION) 1"
  define e where "e = easeOut p"
  define s1 where "s1 = applyRotation
     (s\<lparr>rotateX := sx + (tx - sx) * e, rotateY := sy + (ty - sy) * e\<rparr>)"
  have eq: "rotAnimate sx sy tx ty st (clock s) s =
             (if p < 1 then snd (requestAnimationFrame (RotAnimate sx sy tx ty st) s1) else s1)"
    by (simp only: rotAnimate_def Let_def s1_def e_def p_def)
  from cb have r: "- MAX_ROTATION_X \<le> sx" "sx \<le> MAX_ROTATION_X"
    "- MAX_ROTATION_X \<le> tx" "tx \<le> MAX_ROTATION_X" "st \<le> clock s"
    by simp_all
  from progress_range [OF r(5)] have "0 \<le> e \<and> e \<le> 1"
    unfolding e_def p_def by (intro easeOut_range) simp_all
  with between [OF r(1-4), of e]
  have b: "- MAX_ROTATION_X \<le> sx + (tx - sx) * e" "sx + (tx - sx) * e \<le> MAX_ROTATION_X"
    by simp_all
  have inv1: "rot_inv s1" and c1: "clock s1 = clock s"
    using inv b by (simp_all add: s1_def applyRotation_def applyTransform_def rot_inv_def rot_ok_def)
  from cb c1 have "rot_cb_ok (clock s1) (RotAnimate sx sy tx ty st)" by simp
  from rot_inv_raf [OF inv1 this] inv1 show ?thesis
    unfolding eq by simp
qed

lemma rot_inv_runCallback:
  "rot_inv s \<Longrightarrow> rot_cb_ok (clock s) cb \<Longrightarrow> rot_inv (runCallback (clock s) s cb)"
  by (cases cb)
     (simp_all add: runCallback_def rot_inv_loopAnimate rot_inv_rotAnimate rot_inv_scaleAnimate)

lemma rot_inv_callbacks:
  "rot_inv s \<Longrightarrow> clock s = t \<Longrightarrow> list_all (rot_cb_ok t) cbs \<Longrightarrow>
   rot_inv (foldl (runCallback t) s cbs)"
proof (induction cbs arbitrary: s)
  case Nil
  then show ?case by simp
next
  case (Cons cb cbs)
  from Cons.prems have "rot_inv (runCallback t s cb)"
    using rot_inv_runCallback [of s cb] by simp
  moreover from Cons.prems have "clock (runCallback t s cb) = t"
    by (simp add: runCallback_clock)
  ultimately show ?case using Cons.IH Cons.prems by simp
qed

lemma rot_inv_runFrame: "rot_inv s \<Longrightarrow> rot_inv (runFrame s)"
proof -
  assume inv: "rot_inv s"
  then have "rot_inv (s\<lparr>frameQueue := []\<rparr>)" by (simp add: rot_inv_def rot_ok_def)
  moreover from inv have "list_all (rot_cb_ok (clock s)) (map snd (frameQueue s))"
    by (simp add: rot_inv_def)
  ultimately show ?thesis
    unfolding runFrame_def by (intro rot_inv_callbacks) simp_all
qed

lemma rot_inv_exec: "target_in_range x \<Longrightarrow> rot_inv s \<Longrightarrow> rot_inv (rc_exec s x)"
  by (cases x)
     (simp_all only: rc_exec.simps target_in_range.simps rot_inv_advance rot_inv_runFrame
        rot_inv_updateRotation rot_inv_rotateWithAnimation rot_inv_setRotation rot_inv_resets
        rot_inv_updateZoom rot_inv_setScale rot_inv_handlers rot_inv_handleTouchMove
        rot_inv_destroy)

lemma rot_inv_run:
  "list_all target_in_range ops \<Longrightarrow> rot_inv s \<Longrightarrow> rot_inv (rc_run ops s)"
  unfolding rc_run_def
  by (induction ops arbitrary: s) (simp_all add: rot_inv_exec)

lemma rot_inv_construct: "rot_inv (rc_construct now)"
  by (simp add: rot_inv_def rot_ok_def rc_construct_eq MAX_ROTATION_X_def)

text \<open>
  Every other path clamps: in exact arithmetic, as long as each animated \<^verbatim>\<open>setRotation\<close>
  is given an X angle within \<open>[-90, 90]\<close>, the stored \<open>rotateX\<close> stays within
  \<open>[-90, 90]\<close> after every operation and every frame. In double precision the last frame
  of an animation can miss its target by one rounding step
  (\<open>animated_rotation_ends_above_90\<close>).
\<close>

theorem rotateX_clamped_for_targets_in_range:
  assumes "list_all target_in_range ops"
  shows "- 90 \<le> rotateX (rc_run (take n ops) (rc_construct now)) \<and>
         rotateX (rc_run (take n ops) (rc_construct now)) \<le> 90"
proof -
  from assms have "list_all target_in_range (take n ops)"
    by (auto simp: list_all_iff dest: in_set_takeD)
  from rot_inv_run [OF this rot_inv_construct] show ?thesis
    by (simp add: rot_inv_def rot_ok_def MAX_ROTATION_X_def)
qed

section \<open>LayerManager: basic facts\<close>

lemma lm_construct_demo: "lm_construct demoLayers demoDots = Some demoManager"
  by code_simp

lemma demoManager_fields:
  "layers demoManager = [0, 1, 2, 3, 4]"
  "activeLayer demoManager = Some 3"
  "focusedLayer demoManager = None"
  "docFocus demoManager = None"
  "isAnimating demoManager = False"
  "docOverlays demoManager = []"
  "lm_dispatched demoManager = [(''layerActivated'', Some 3, Some 3, None)]"
  by (simp_all add: demoManager_def upt_rec)

lemma LAYER_CONFIG_Some: "1 \<le> i \<Longrightarrow> i \<le> 5 \<Longrightarrow> \<exists>z. LAYER_CONFIG i = Some z"
  by (simp add: LAYER_CONFIG_def)

lemma getLayer_range: "getLayer i s = Some r \<Longrightarrow> 1 \<le> i \<and> i \<le> int (length (layers s))"
  by (simp add: getLayer_def split: if_splits)

lemma updLayer_layerEls [simp]: "(updLayer r f s)\<lparr>layerEls := els\<rparr> = s\<lparr>layerEls := els\<rparr>"
  by (simp add: updLayer_def)

lemma activeLayer_setActiveLayer [simp]: "activeLayer (setActiveLayer i s) = Some i"
  by (simp add: setActiveLayer_def Let_def dispatchLayerEvent_def updLayer_def updIndicator_def
      split: option.splits)

lemma setActiveLayer_frame:
  "layers (setActiveLayer i s) = layers s"
  "focusedLayer (setActiveLayer i s) = focusedLayer s"
  "docFocus (setActiveLayer i s) = docFocus s"
  "lm_listeners (setActiveLayer i s) = lm_listeners s"
  "isAnimating (setActiveLayer i s) = isAnimating s"
  "docOverlays (setActiveLayer i s) = docOverlays s"
  "timers (setActiveLayer i s) = timers s"
  by (simp_all add: setActiveLayer_def Let_def dispatchLayerEvent_def updLayer_def updIndicator_def
      clearActive_def split: option.splits)

section \<open>Activation is idempotent\<close>

lemma setActiveLayer_same: "activeLayer s = Some i \<Longrightarrow> setActiveLayer i s = s"
  by (simp add: setActiveLayer_def)

lemma setActiveLayer_twice: "setActiveLayer i (setActiveLayer i s) = setActiveLayer i s"
  by (simp add: setActiveLayer_same)

lemma lm_dispatched_setActiveLayer:
  "activeLayer s \<noteq> Some i \<Longrightarrow>
   lm_dispatched (setActiveLayer i s) =
     lm_dispatched s @ [(''layerActivated'', Some i, Some i, focusedLayer s)]"
  by (simp add: setActiveLayer_def Let_def dispatchLayerEvent_def updLayer_def updIndicator_def
      clearActive_def split: option.splits)

text \<open>
  Claim C6. \<^verbatim>\<open>setActiveLayer(i)\<close> returns the state unchanged when \<open>i\<close> is already the
  active layer. Hence a second call with the same \<open>i\<close> changes nothing: two calls in a row
  have the effect of one. When \<open>i\<close> was not active before, the two calls together make \<open>i\<close>
  active and dispatch exactly one \<^verbatim>\<open>layerActivated\<close> event (carrying \<open>i\<close> as layer index
  and as active layer); when it was, they dispatch none.
\<close>

theorem setActiveLayer_idempotent:
  "setActiveLayer i (setActiveLayer i s) = setActiveLayer i s \<and>
   (activeLayer s = Some i \<longrightarrow> setActiveLayer i s = s) \<and>
   (activeLayer s \<noteq> Some i \<longrightarrow>
      activeLayer (setActiveLayer i s) = Some i \<and>
      lm_dispatched (setActiveLayer i (setActiveLayer i s)) =
        lm_dispatched s @ [(''layerActivated'', Some i, Some i, focusedLayer s)]) \<and>
   activations (setActiveLayer i (setActiveLayer i s)) =
     activations s + (if activeLayer s = Some i then 0 else 1)"
  by (simp add: setActiveLayer_twice setActiveLayer_same lm_dispatched_setActiveLayer
      activations_def)

theorem setActiveLayer_idempotent_witness:
  "activeLayer demoManager = Some 3 \<and> setActiveLayer 3 demoManager = demoManager \<and>
   activeLayer demoManager \<noteq> Some 4 \<and>
   activeLayer (setActiveLayer 4 demoManager) = Some 4 \<and>
   lm_dispatched (setActiveLayer 4 (setActiveLayer 4 demoManager)) =
     [(''layerActivated'', Some 3, Some 3, None), (''layerActivated'', Some 4, Some 4, None)] \<and>
   activations (setActiveLayer 4 (setActiveLayer 4 demoManager)) = 2"
proof -
  have one: "activations demoManager = 1"
    by (simp add: activations_def demoManager_fields)
  have a3: "activeLayer demoManager = Some 3" and a4: "activeLayer demoManager \<noteq> Some 4"
    by (simp_all add: demoManager_fields)
  from setActiveLayer_idempotent [of 3 demoManager] a3
  have same: "setActiveLayer 3 demoManager = demoManager" by blast
  from setActiveLayer_idempotent [of 4 demoManager] a4
  have now4: "activeLayer (setActiveLayer 4 demoManager) = Some 4"
    and sent: "lm_dispatched (setActiveLayer 4 (setActiveLayer 4 demoManager)) =
          lm_dispatched demoManager @ [(''layerActivated'', Some 4, Some 4, focusedLayer demoManager)]"
    and count: "activations (setActiveLayer 4 (setActiveLayer 4 demoManager)) =
          activations demoManager + (if activeLayer demoManager = Some 4 then 0 else 1)"
    by blast+
  from sent have sent': "lm_dispatched (setActiveLayer 4 (setActiveLayer 4 demoManager)) =
     [(''layerActivated'', Some 3, Some 3, None), (''layerActivated'', Some 4, Some 4, None)]"
    by (simp add: demoManager_fields)
  from count one a3 have count': "activations (setActiveLayer 4 (setActiveLayer 4 demoManager)) = 2"
    by simp
  from a3 same a4 now4 sent' count' show ?thesis by blast
qed

section \<open>Rotation-driven activation\<close>

lemma visibilityLoop_frame:
  "index + length rs \<le> 5 \<Longrightarrow>
   \<exists>els. visibilityLoop rx index rs s = Some (s\<lparr>layerEls := els\<rparr>)"
proof (induction rs arbitrary: index s)
  case Nil
  have "s = s\<lparr>layerEls := layerEls s\<rparr>" by simp
  then show ?case by (metis visibilityLoop.simps(1))
next
  case (Cons r rs)
  from Cons.prems obtain z where z: "LAYER_CONFIG (int index + 1) = Some z"
    using LAYER_CONFIG_Some [of "int index + 1"] by auto
  have "\<exists>f. visibilityLoop rx index (r # rs) s = visibilityLoop rx (index + 1) rs (updLayer r f s)"
    by (simp add: z Let_def) blast
  then obtain f
    where step: "visibilityLoop rx index (r # rs) s = visibilityLoop rx (index + 1) rs (updLayer r f s)"
    by blast
  from Cons.prems have "(index + 1) + length rs \<le> 5" by simp
  from Cons.IH [OF this, of "updLayer r f s"] show ?case
    unfolding step by simp
qed

lemma updateLayerVisibility_frame:
  "length (layers s) \<le> 5 \<Longrightarrow> \<exists>els. updateLayerVisibility rx ry s = Some (s\<lparr>layerEls := els\<rparr>)"
  unfolding updateLayerVisibility_def using visibilityLoop_frame [of 0 "layers s" rx s] by simp

lemma activeLayer_updateActive:
  "activeLayer (updateActiveLayerFromRotation rx ry s) =
     (if \<bar>rx\<bar> < 15 then Some 3
      else if rx > 30
      then (if toNumber (activeLayer s) > 2 then Some (toNumber (activeLayer s) - 1)
            else activeLayer s)
      else if rx < - 30
      then (if toNumber (activeLayer s) < 4 then Some (toNumber (activeLayer s) + 1)
            else activeLayer s)
      else activeLayer s)"
  by (simp add: updateActiveLayerFromRotation_def Let_def)

text \<open>
  Claim C1, as the code has it. With at most five layers (the constructor throws on more)
  \<^verbatim>\<open>handleRotationUpdate\<close> returns normally, and the active layer afterwards is: 3 when
  \<open>|rotateX| < 15\<close>; beyond +30 degrees one less than before, but only when it was greater
  than 2, so that this path stops at 2 and leaves 1, 2 and an unset layer alone; beyond -30
  degrees one more than before, but only when it was less than 4, so that this path stops at
  4 and leaves 4 and 5 alone (an unset layer counts as 0 and becomes 1); unchanged in the dead
  zone \<open>15 \<le> |rotateX| \<le> 30\<close>.
\<close>

theorem handleRotationUpdate_nudge:
  assumes "length (layers s) \<le> 5"
  shows "\<exists>s'. handleRotationUpdate rx ry s = Some s' \<and>
           activeLayer s' =
             (if \<bar>rx\<bar> < 15 then Some 3
              else if rx > 30
              then (if toNumber (activeLayer s) > 2 then Some (toNumber (activeLayer s) - 1)
                    else activeLayer s)
              else if rx < - 30
              then (if toNumber (activeLayer s) < 4 then Some (toNumber (activeLayer s) + 1)
                    else activeLayer s)
              else activeLayer s)"
proof -
  from updateLayerVisibility_frame [OF assms] obtain els
    where vis: "updateLayerVisibility rx ry s = Some (s\<lparr>layerEls := els\<rparr>)" by blast
  have "handleRotationUpdate rx ry s = Some (updateActiveLayerFromRotation rx ry (s\<lparr>layerEls := els\<rparr>))"
    by (simp add: handleRotationUpdate_def vis)
  then show ?thesis by (simp add: activeLayer_updateActive)
qed

theorem handleRotationUpdate_nudge_witness:
  "length (layers demoManager) \<le> 5 \<and>
   (\<exists>s'. handleRotationUpdate 45 0 demoManager = Some s' \<and> activeLayer s' = Some 2) \<and>
   (\<exists>s'. handleRotationUpdate (- 45) 0 demoManager = Some s' \<and> activeLayer s' = Some 4) \<and>
   (\<exists>s'. handleRotationUpdate 20 0 (setActiveLayer 2 demoManager) = Some s' \<and> activeLayer s' = Some 2) \<and>
   (\<exists>s'. handleRotationUpdate 0 0 (setActiveLayer 2 demoManager) = Some s' \<and> activeLayer s' = Some 3)"
proof -
  have five: "length (layers demoManager) \<le> 5" "length (layers (setActiveLayer 2 demoManager)) \<le> 5"
    by (simp_all add: demoManager_fields setActiveLayer_frame)
  show ?thesis
    using five handleRotationUpdate_nudge [OF five(1), of 45 0]
      handleRotationUpdate_nudge [OF five(1), of "- 45" 0]
      handleRotationUpdate_nudge [OF five(2), of 20 0]
      handleRotationUpdate_nudge [OF five(2), of 0 0]
    by (simp add: demoManager_fields)
qed

text \<open>
  The claim as worded (floor 1, ceiling 5) fails: from the constructed manager (active layer
  3) a first update with \<open>rotateX = 45\<close> gives layer 2, and a second one leaves it at 2,
  where the wording asks for 1.
\<close>

theorem handleRotationUpdate_floor_counterexample:
  "lm_construct demoLayers demoDots \<bind> lm_run [RotationUpdateEv 45 0, RotationUpdateEv 45 0]
     \<bind> (\<lambda>s. Some (activeLayer s)) = Some (Some 2) \<and>
   claimed_nudge 45 (claimed_nudge 45 3) = 1"
proof -
  have "lm_run [RotationUpdateEv 45 0, RotationUpdateEv 45 0] demoManager
          \<bind> (\<lambda>s. Some (activeLayer s)) = Some (Some 2)"
    by code_simp
  moreover have "claimed_nudge 45 (claimed_nudge 45 3) = 1"
    by (simp add: claimed_nudge_def)
  ultimately show ?thesis by (simp add: lm_construct_demo)
qed

section \<open>Keyboard navigation: focus and clamping\<close>

lemma state_layerEls_id: "\<exists>els. s = s\<lparr>layerEls := els\<rparr>"
  by (rule exI [of _ "layerEls s"]) simp

lemma highlightLayer_frame:
  assumes "length (layers s) \<le> 5"
  shows "\<exists>els. highlightLayer i s = Some (s\<lparr>layerEls := els\<rparr>)"
proof (cases "getLayer i s")
  case None
  then show ?thesis using state_layerEls_id [of s] by (simp add: highlightLayer_def)
next
  case (Some r)
  with assms getLayer_range [OF Some] obtain z where "LAYER_CONFIG i = Some z"
    using LAYER_CONFIG_Some [of i] by auto
  with Some show ?thesis by (auto simp: highlightLayer_def updLayer_def)
qed

lemma unhighlightLayer_frame:
  assumes "length (layers s) \<le> 5"
  shows "\<exists>els. unhighlightLayer i s = Some (s\<lparr>layerEls := els\<rparr>)"
proof (cases "getLayer i s")
  case None
  then show ?thesis using state_layerEls_id [of s] by (simp add: unhighlightLayer_def)
next
  case (Some r)
  with assms getLayer_range [OF Some] obtain z where "LAYER_CONFIG i = Some z"
    using LAYER_CONFIG_Some [of i] by auto
  with Some show ?thesis
    using state_layerEls_id [of s]
    by (cases "classActive (layerEls s ! r)") (auto simp: unhighlightLayer_def updLayer_def)
qed

lemma handleLayerFocus_result:
  assumes "length (layers s) \<le> 5"
  shows "\<exists>s'. handleLayerFocus i s = Some s' \<and> focusedLayer s' = Some i \<and>
           activeLayer s' = activeLayer s \<and> layers s' = layers s \<and>
           docFocus s' = docFocus s \<and> lm_listeners s' = lm_listeners s"
proof -
  from assms have "length (layers (s\<lparr>focusedLayer := Some i\<rparr>)) \<le> 5" by simp
  from highlightLayer_frame [OF this, of i] obtain els
    where "highlightLayer i (s\<lparr>focusedLayer := Some i\<rparr>) = Some (s\<lparr>focusedLayer := Some i, layerEls := els\<rparr>)"
    by auto
  then show ?thesis by (simp add: handleLayerFocus_def dispatchLayerEvent_def)
qed

lemma handleLayerBlur_result:
  assumes "length (layers s) \<le> 5"
  shows "\<exists>s'. handleLayerBlur i s = Some s' \<and>
           focusedLayer s' = (if focusedLayer s = Some i then None else focusedLayer s) \<and>
           activeLayer s' = activeLayer s \<and> layers s' = layers s \<and>
           docFocus s' = docFocus s \<and> lm_listeners s' = lm_listeners s"
proof -
  from assms have "length (layers (s\<lparr>focusedLayer := None\<rparr>)) \<le> 5" by simp
  from unhighlightLayer_frame [OF this, of i] obtain els
    where "unhighlightLayer i (s\<lparr>focusedLayer := None\<rparr>) = Some (s\<lparr>focusedLayer := None, layerEls := els\<rparr>)"
    by auto
  then show ?thesis by (simp add: handleLayerBlur_def dispatchLayerEvent_def Let_def)
qed

lemma elementBlur_result:
  assumes "length (layers s) \<le> 5"
  shows "\<exists>s'. elementBlur s = Some s' \<and> docFocus s' = None \<and>
           (focusedLayer s' = focusedLayer s \<or> focusedLayer s' = None) \<and>
           activeLayer s' = activeLayer s \<and> layers s' = layers s \<and>
           lm_listeners s' = lm_listeners s"
proof (cases "docFocus s")
  case None
  then show ?thesis by (simp add: elementBlur_def)
next
  case (Some q)
  from assms have "length (layers (s\<lparr>docFocus := None\<rparr>)) \<le> 5" by simp
  from handleLayerBlur_result [OF this, of "int q + 1"] Some show ?thesis
    by (auto simp: elementBlur_def)
qed

lemma elementFocus_result:
  assumes "length (layers s) \<le> 5"
  shows "\<exists>s'. elementFocus r s = Some s' \<and> docFocus s' = Some r \<and>
           (focusedLayer s' = focusedLayer s \<or> focusedLayer s' = None \<or>
            focusedLayer s' = Some (int r + 1)) \<and>
           (docFocus s \<noteq> Some r \<and> attached (LayerEl r, ''focus'', bh_layerFocus) s
              \<longrightarrow> focusedLayer s' = Some (int r + 1)) \<and>
           activeLayer s' = activeLayer s \<and> layers s' = layers s \<and>
           lm_listeners s' = lm_listeners s"
proof (cases "docFocus s = Some r")
  case True
  then show ?thesis by (simp add: elementFocus_def)
next
  case False
  from elementBlur_result [OF assms] obtain s1 where
    s1: "elementBlur s = Some s1" "focusedLayer s1 = focusedLayer s \<or> focusedLayer s1 = None"
      "activeLayer s1 = activeLayer s" "layers s1 = layers s" "lm_listeners s1 = lm_listeners s"
    by blast
  let ?s2 = "s1\<lparr>docFocus := Some r\<rparr>"
  have att: "attached (LayerEl r, ''focus'', bh_layerFocus) ?s2 = attached (LayerEl r, ''focus'', bh_layerFocus) s"
    using s1 by (simp add: attached_def)
  show ?thesis
  proof (cases "attached (LayerEl r, ''focus'', bh_layerFocus) s")
    case True
    from assms s1 have "length (layers ?s2) \<le> 5" by simp
    from handleLayerFocus_result [OF this, of "int r + 1"] obtain s' where
      "handleLayerFocus (int r + 1) ?s2 = Some s'" "focusedLayer s' = Some (int r + 1)"
      "activeLayer s' = activeLayer ?s2" "layers s' = layers ?s2" "docFocus s' = docFocus ?s2"
      "lm_listeners s' = lm_listeners ?s2" by blast
    with False True att s1 show ?thesis by (simp add: elementFocus_def)
  next
    case noatt: False
    with False att s1 show ?thesis by (auto simp: elementFocus_def)
  qed
qed


lemma getLayer_upt:
  assumes "layers_ok s" "1 \<le> i" "i \<le> int (length (layers s))"
  shows "getLayer i s = Some (nat (i - 1))"
proof -
  define n where "n = length (layers s)"
  from assms(1) have ls: "layers s = [0..<n]" by (simp add: layers_ok_def n_def)
  from assms(2,3) have "nat (i - 1) < n" by (simp add: n_def)
  then have "[0..<n] ! nat (i - 1) = nat (i - 1)" by simp
  with assms(2,3) ls show ?thesis by (simp add: getLayer_def)
qed

lemma focusOnLayer_result:
  assumes "layers_ok s"
  shows "\<exists>s'. focusOnLayer i s = Some s' \<and>
           (focusedLayer s' = focusedLayer s \<or> focusedLayer s' = None \<or>
            (focusedLayer s' = Some i \<and> 1 \<le> i \<and> i \<le> 5)) \<and>
           (1 \<le> i \<and> i \<le> int (length (layers s)) \<longrightarrow> docFocus s' = Some (nat (i - 1))) \<and>
           (1 \<le> i \<and> i \<le> int (length (layers s)) \<and> docFocus s \<noteq> Some (nat (i - 1)) \<and>
            attached (LayerEl (nat (i - 1)), ''focus'', bh_layerFocus) s
              \<longrightarrow> focusedLayer s' = Some i) \<and>
           activeLayer s' = activeLayer s \<and> layers s' = layers s \<and>
           lm_listeners s' = lm_listeners s"
proof (cases "1 \<le> i \<and> i \<le> int (length (layers s))")
  case True
  from assms have five: "length (layers s) \<le> 5" by (simp add: layers_ok_def)
  from True assms have g: "getLayer i s = Some (nat (i - 1))" by (simp add: getLayer_upt)
  from True have renum: "int (nat (i - 1)) + 1 = i" by simp
  from True five have "i \<le> 5" by simp
  with elementFocus_result [OF five, of "nat (i - 1)"] g renum True show ?thesis
    by (auto simp: focusOnLayer_def)
next
  case False
  then have "getLayer i s = None" by (auto simp: getLayer_def)
  with False show ?thesis by (auto simp: focusOnLayer_def)
qed

lemma currentLayer_range: "sel_ok s \<Longrightarrow> 1 \<le> currentLayer s \<and> currentLayer s \<le> 5"
  by (cases "focusedLayer s"; cases "activeLayer s")
     (auto simp: sel_ok_def currentLayer_def js_or_def)

lemma currentLayer_focused:
  "sel_ok s \<Longrightarrow> focusedLayer s = Some f \<Longrightarrow> currentLayer s = f"
  by (auto simp: sel_ok_def currentLayer_def js_or_def)

lemma navigateLayer_step:
  assumes "layers_ok s" "sel_ok s"
  shows "\<exists>s'. navigateLayer d s = Some s' \<and> layers_ok s' \<and> sel_ok s' \<and>
           (max 1 (min 5 (currentLayer s + d)) = currentLayer s \<longrightarrow> s' = s) \<and>
           (max 1 (min 5 (currentLayer s + d)) \<noteq> currentLayer s \<longrightarrow>
              activeLayer s' = Some (max 1 (min 5 (currentLayer s + d))))"
proof (cases "max 1 (min 5 (currentLayer s + d)) = currentLayer s")
  case True
  with assms show ?thesis by (simp add: navigateLayer_def Let_def)
next
  case False
  define n where "n = max 1 (min 5 (currentLayer s + d))"
  have nr: "1 \<le> n" "n \<le> 5" by (simp_all add: n_def)
  let ?s1 = "setActiveLayer n s"
  from assms have ok1: "layers_ok ?s1" by (simp add: layers_ok_def setActiveLayer_frame)
  from focusOnLayer_result [OF ok1, of n] obtain s' where
    s': "focusOnLayer n ?s1 = Some s'"
      "focusedLayer s' = focusedLayer ?s1 \<or> focusedLayer s' = None \<or>
         (focusedLayer s' = Some n \<and> 1 \<le> n \<and> n \<le> 5)"
      "activeLayer s' = activeLayer ?s1" "layers s' = layers ?s1"
    by blast
  from s'(4) ok1 have "layers_ok s'" by (simp add: layers_ok_def)
  moreover from s'(2,3) assms(2) nr have "sel_ok s'"
    by (auto simp: sel_ok_def setActiveLayer_frame)
  moreover from False s'(1) have "navigateLayer d s = Some s'"
    by (simp add: navigateLayer_def Let_def n_def)
  moreover from s'(3) have "activeLayer s' = Some n" by simp
  ultimately show ?thesis using False by (simp add: n_def)
qed

lemma navigate_run:
  "layers_ok s \<Longrightarrow> sel_ok s \<Longrightarrow>
   \<exists>s'. lm_run (map NavigateLayer ds) s = Some s' \<and> layers_ok s' \<and> sel_ok s'"
proof (induction ds arbitrary: s)
  case Nil
  then show ?case by simp
next
  case (Cons d ds)
  from navigateLayer_step [OF Cons.prems, of d] obtain s1 where
    s1: "navigateLayer d s = Some s1" "layers_ok s1" "sel_ok s1" by blast
  from Cons.IH [OF s1(2,3)] s1(1) show ?case by simp
qed

text \<open>
  Claim C8. From any selection state whose active and focused indices are each unset or in
  \<open>1..5\<close>, every sequence of \<^verbatim>\<open>navigateLayer\<close> calls returns normally and leaves both
  indices unset or in \<open>1..5\<close>, the current layer (focused, else active, else 3) in \<open>1..5\<close>.
  One call computes the current layer plus the direction clamped to \<open>[1, 5]\<close>; when that
  differs from the current layer it becomes the active layer, and when it does not (at layer
  5 going up, at layer 1 going down) the state is returned unchanged: no wrap-around.
\<close>

theorem navigateLayer_bounded:
  assumes "layers_ok s" and "sel_ok s"
  shows "(\<exists>s'. lm_run (map NavigateLayer ds) s = Some s' \<and>
            idx_ok (activeLayer s') \<and> idx_ok (focusedLayer s') \<and>
            1 \<le> currentLayer s' \<and> currentLayer s' \<le> 5) \<and>
         (\<exists>s'. navigateLayer d s = Some s' \<and>
            (max 1 (min 5 (currentLayer s + d)) = currentLayer s \<longrightarrow> s' = s) \<and>
            (max 1 (min 5 (currentLayer s + d)) \<noteq> currentLayer s \<longrightarrow>
               activeLayer s' = Some (max 1 (min 5 (currentLayer s + d))))) \<and>
         (currentLayer s = 5 \<longrightarrow> navigateLayer 1 s = Some s) \<and>
         (currentLayer s = 1 \<longrightarrow> navigateLayer (- 1) s = Some s)"
proof -
  from navigate_run [OF assms, of ds] obtain s' where
    "lm_run (map NavigateLayer ds) s = Some s'" "sel_ok s'" by blast
  then have "\<exists>s'. lm_run (map NavigateLayer ds) s = Some s' \<and>
           idx_ok (activeLayer s') \<and> idx_ok (focusedLayer s') \<and>
           1 \<le> currentLayer s' \<and> currentLayer s' \<le> 5"
    using currentLayer_range [of s'] by (auto simp: sel_ok_def)
  moreover from navigateLayer_step [OF assms, of d]
  have "\<exists>s'. navigateLayer d s = Some s' \<and>
            (max 1 (min 5 (currentLayer s + d)) = currentLayer s \<longrightarrow> s' = s) \<and>
            (max 1 (min 5 (currentLayer s + d)) \<noteq> currentLayer s \<longrightarrow>
               activeLayer s' = Some (max 1 (min 5 (currentLayer s + d))))"
    by blast
  moreover have "currentLayer s = 5 \<longrightarrow> navigateLayer 1 s = Some s"
    by (simp add: navigateLayer_def)
  moreover have "currentLayer s = 1 \<longrightarrow> navigateLayer (- 1) s = Some s"
    by (simp add: navigateLayer_def)
  ultimately show ?thesis by blast
qed

theorem navigateLayer_bounded_witness:
  "layers_ok demoManager \<and> sel_ok demoManager \<and>
   (\<exists>s'. lm_run (map NavigateLayer [1, 1, 1, - 1]) demoManager = Some s' \<and>
      idx_ok (activeLayer s') \<and> idx_ok (focusedLayer s') \<and>
      1 \<le> currentLayer s' \<and> currentLayer s' \<le> 5) \<and>
   (\<exists>s'. navigateLayer 1 demoManager = Some s' \<and> activeLayer s' = Some 4)"
proof -
  have ok: "layers_ok demoManager" "sel_ok demoManager"
    by (simp_all add: layers_ok_def sel_ok_def demoManager_fields upt_rec)
  have cur: "currentLayer demoManager = 3"
    by (simp add: currentLayer_def js_or_def demoManager_fields)
  from navigateLayer_bounded [OF ok, of "[1, 1, 1, - 1]" 1] cur ok show ?thesis
    by simp
qed

lemma cycle_target:
  assumes "layers_ok s" "length (layers s) = 5" "focus_wired s" "focus_sync s" "sel_ok s"
    and t: "1 \<le> t" "t \<le> 5" "t \<noteq> currentLayer s"
  shows "\<exists>s'. focusOnLayer t s = Some s' \<and> focusedLayer s' = Some t \<and>
           docFocus s' = Some (nat (t - 1)) \<and> activeLayer s' = activeLayer s"
proof -
  from t assms(2) have inr: "1 \<le> t \<and> t \<le> int (length (layers s))" by simp
  from assms(1,2) have ls: "layers s = [0..<5]" by (simp add: layers_ok_def)
  from t have "nat (t - 1) \<in> set [0..<5]" by auto
  with assms(3) ls have att: "attached (LayerEl (nat (t - 1)), ''focus'', bh_layerFocus) s"
    by (simp add: focus_wired_def list_all_iff)
  have nf: "docFocus s \<noteq> Some (nat (t - 1))"
  proof
    assume d: "docFocus s = Some (nat (t - 1))"
    with assms(4) t have "focusedLayer s = Some t" by (simp add: focus_sync_def)
    with assms(5) have "currentLayer s = t" by (rule currentLayer_focused)
    with t show False by simp
  qed
  from focusOnLayer_result [OF assms(1), of t] inr att nf show ?thesis by blast
qed

lemma cycleLayers_from_current:
  assumes "layers_ok s" "length (layers s) = 5" "focus_wired s" "focus_sync s" "sel_ok s"
  shows "(\<exists>s'. cycleLayers 1 s = Some s' \<and>
            focusedLayer s' = Some (if currentLayer s = 5 then 1 else currentLayer s + 1) \<and>
            docFocus s' = Some (if currentLayer s = 5 then 0 else nat (currentLayer s)) \<and>
            activeLayer s' = activeLayer s) \<and>
         (\<exists>s'. cycleLayers (- 1) s = Some s' \<and>
            focusedLayer s' = Some (if currentLayer s = 1 then 5 else currentLayer s - 1) \<and>
            docFocus s' = Some (if currentLayer s = 1 then 4 else nat (currentLayer s - 2)) \<and>
            activeLayer s' = activeLayer s)"
proof -
  from currentLayer_range [OF assms(5)] have c: "1 \<le> currentLayer s" "currentLayer s \<le> 5" by simp_all
  define up where "up = (if currentLayer s = 5 then 1 else currentLayer s + 1)"
  define dn where "dn = (if currentLayer s = 1 then 5 else currentLayer s - 1)"
  from c have upr: "1 \<le> up" "up \<le> 5" "up \<noteq> currentLayer s" by (auto simp: up_def)
  from c have dnr: "1 \<le> dn" "dn \<le> 5" "dn \<noteq> currentLayer s" by (auto simp: dn_def)
  from c have cu: "cycleLayers 1 s = focusOnLayer up s"
    by (auto simp: cycleLayers_def Let_def up_def)
  from c have cd: "cycleLayers (- 1) s = focusOnLayer dn s"
    by (auto simp: cycleLayers_def Let_def dn_def)
  from cycle_target [OF assms upr] cu c
  have "\<exists>s'. cycleLayers 1 s = Some s' \<and>
           focusedLayer s' = Some (if currentLayer s = 5 then 1 else currentLayer s + 1) \<and>
           docFocus s' = Some (if currentLayer s = 5 then 0 else nat (currentLayer s)) \<and>
           activeLayer s' = activeLayer s"
    by (auto simp: up_def)
  moreover from cycle_target [OF assms dnr] cd c
  have "\<exists>s'. cycleLayers (- 1) s = Some s' \<and>
           focusedLayer s' = Some (if currentLayer s = 1 then 5 else currentLayer s - 1) \<and>
           docFocus s' = Some (if currentLayer s = 1 then 4 else nat (currentLayer s - 2)) \<and>
           activeLayer s' = activeLayer s"
    by (auto simp: dn_def nat_diff_distrib)
  ultimately show ?thesis by blast
qed

lemma currentLayer_selected:
  assumes "sel_ok s"
    and "focusedLayer s = Some c \<or> (focusedLayer s = None \<and> activeLayer s = Some c) \<or>
         (focusedLayer s = None \<and> activeLayer s = None \<and> c = 3)"
  shows "currentLayer s = c"
  using assms by (auto simp: sel_ok_def currentLayer_def js_or_def)

lemma demoManager_ready:
  "layers_ok demoManager" "length (layers demoManager) = 5" "focus_wired demoManager"
  "focus_sync demoManager" "sel_ok demoManager"
  by (simp_all add: layers_ok_def sel_ok_def focus_sync_def focus_wired_def attached_def
      demoManager_def layerListeners_def upt_rec)

lemma lm_run_result:
  "lm_run xs s \<bind> (\<lambda>s. Some (f s)) = Some v \<Longrightarrow> \<exists>s'. lm_run xs s = Some s' \<and> f s' = v"
  by (cases "lm_run xs s") simp_all

text \<open>
  Claim C7. In a manager over five layers whose focus listeners are attached and whose
  \<^verbatim>\<open>focusedLayer\<close> mirrors the DOM focus, let \<open>c\<close> be the focused layer or, when no layer is
  focused, the active layer (or 3, when there is neither). Then \<^verbatim>\<open>cycleLayers(+1)\<close> moves the focus to layer \<open>c + 1\<close>, and
  from layer 5 to layer 1; \<^verbatim>\<open>cycleLayers(-1)\<close> moves it to layer \<open>c - 1\<close>, and from layer 1
  to layer 5. Both the manager's \<^verbatim>\<open>focusedLayer\<close> and the DOM focus move; the active layer
  stays as it is.
\<close>

theorem cycleLayers_wraps:
  assumes "layers_ok s" "length (layers s) = 5" "focus_wired s" "focus_sync s" "sel_ok s"
    and "focusedLayer s = Some c \<or> (focusedLayer s = None \<and> activeLayer s = Some c) \<or>
         (focusedLayer s = None \<and> activeLayer s = None \<and> c = 3)"
  shows "(\<exists>s'. cycleLayers 1 s = Some s' \<and>
            focusedLayer s' = Some (if c = 5 then 1 else c + 1) \<and>
            docFocus s' = Some (if c = 5 then 0 else nat c) \<and>
            activeLayer s' = activeLayer s) \<and>
         (\<exists>s'. cycleLayers (- 1) s = Some s' \<and>
            focusedLayer s' = Some (if c = 1 then 5 else c - 1) \<and>
            docFocus s' = Some (if c = 1 then 4 else nat (c - 2)) \<and>
            activeLayer s' = activeLayer s)"
proof -
  from currentLayer_selected [OF assms(5,6)] have eq: "currentLayer s = c" .
  from cycleLayers_from_current [OF assms(1-5)] show ?thesis unfolding eq .
qed

theorem cycleLayers_wraps_witness:
  "(\<exists>s. lm_run [NavigateLayer 1, NavigateLayer 1] demoManager = Some s \<and>
      layers_ok s \<and> length (layers s) = 5 \<and> focus_wired s \<and> focus_sync s \<and> sel_ok s \<and>
      focusedLayer s = Some 5 \<and>
      (\<exists>s'. cycleLayers 1 s = Some s' \<and> focusedLayer s' = Some 1 \<and> docFocus s' = Some 0) \<and>
      (\<exists>s'. cycleLayers (- 1) s = Some s' \<and> focusedLayer s' = Some 4)) \<and>
   (\<exists>s. lm_run [NavigateLayer (- 1), NavigateLayer (- 1)] demoManager = Some s \<and>
      layers_ok s \<and> length (layers s) = 5 \<and> focus_wired s \<and> focus_sync s \<and> sel_ok s \<and>
      focusedLayer s = Some 1 \<and>
      (\<exists>s'. cycleLayers (- 1) s = Some s' \<and> focusedLayer s' = Some 5 \<and> docFocus s' = Some 4) \<and>
      (\<exists>s'. cycleLayers 1 s = Some s' \<and> focusedLayer s' = Some 2)) \<and>
   (layers_ok demoManager \<and> length (layers demoManager) = 5 \<and> focus_wired demoManager \<and>
    focus_sync demoManager \<and> sel_ok demoManager \<and>
    focusedLayer demoManager = None \<and> activeLayer demoManager = Some 3 \<and>
    (\<exists>s'. cycleLayers 1 demoManager = Some s' \<and> focusedLayer s' = Some 4) \<and>
    (\<exists>s'. cycleLayers (- 1) demoManager = Some s' \<and> focusedLayer s' = Some 2))"
proof -
  have "lm_run [NavigateLayer 1, NavigateLayer 1] demoManager
          \<bind> (\<lambda>s. Some (layers_ok s, length (layers s), focus_wired s, focus_sync s, sel_ok s,
                           focusedLayer s))
        = Some (True, 5, True, True, True, Some 5)"
    by code_simp
  from lm_run_result [OF this] obtain s5 where
    s5: "lm_run [NavigateLayer 1, NavigateLayer 1] demoManager = Some s5"
      "layers_ok s5" "length (layers s5) = 5" "focus_wired s5" "focus_sync s5" "sel_ok s5"
      "focusedLayer s5 = Some 5"
    by auto
  have c5: "focusedLayer s5 = Some 5 \<or> (focusedLayer s5 = None \<and> activeLayer s5 = Some 5) \<or>
      (focusedLayer s5 = None \<and> activeLayer s5 = None \<and> (5::int) = 3)"
    using s5(7) by simp
  from cycleLayers_wraps [OF s5(2-6) c5]
  have w5: "\<exists>s'. cycleLayers 1 s5 = Some s' \<and> focusedLayer s' = Some 1 \<and> docFocus s' = Some 0"
    "\<exists>s'. cycleLayers (- 1) s5 = Some s' \<and> focusedLayer s' = Some 4"
    by auto
  have "lm_run [NavigateLayer (- 1), NavigateLayer (- 1)] demoManager
          \<bind> (\<lambda>s. Some (layers_ok s, length (layers s), focus_wired s, focus_sync s, sel_ok s,
                           focusedLayer s))
        = Some (True, 5, True, True, True, Some 1)"
    by code_simp
  from lm_run_result [OF this] obtain s1 where
    s1: "lm_run [NavigateLayer (- 1), NavigateLayer (- 1)] demoManager = Some s1"
      "layers_ok s1" "length (layers s1) = 5" "focus_wired s1" "focus_sync s1" "sel_ok s1"
      "focusedLayer s1 = Some 1"
    by auto
  have c1: "focusedLayer s1 = Some 1 \<or> (focusedLayer s1 = None \<and> activeLayer s1 = Some 1) \<or>
      (focusedLayer s1 = None \<and> activeLayer s1 = None \<and> (1::int) = 3)"
    using s1(7) by simp
  from cycleLayers_wraps [OF s1(2-6) c1]
  have w1: "\<exists>s'. cycleLayers (- 1) s1 = Some s' \<and> focusedLayer s' = Some 5 \<and> docFocus s' = Some 4"
    "\<exists>s'. cycleLayers 1 s1 = Some s' \<and> focusedLayer s' = Some 2"
    by auto
  have sel: "focusedLayer demoManager = None" "activeLayer demoManager = Some 3"
    by (simp_all add: demoManager_fields)
  then have c3: "focusedLayer demoManager = Some 3 \<or>
      (focusedLayer demoManager = None \<and> activeLayer demoManager = Some 3) \<or>
      (focusedLayer demoManager = None \<and> activeLayer demoManager = None \<and> (3::int) = 3)"
    by simp
  from cycleLayers_wraps [OF demoManager_ready c3]
  have w3: "\<exists>s'. cycleLayers 1 demoManager = Some s' \<and> focusedLayer s' = Some 4"
    "\<exists>s'. cycleLayers (- 1) demoManager = Some s' \<and> focusedLayer s' = Some 2"
    by auto
  from s5 w5 s1 w1 demoManager_ready sel w3 show ?thesis by blast
qed

section \<open>The detail overlay and its latch\<close>

lemma resetLoop_frame:
  "index + length rs \<le> 5 \<Longrightarrow> \<exists>els. resetLoop index rs s = Some (s\<lparr>layerEls := els\<rparr>)"
proof (induction rs arbitrary: index s)
  case Nil
  then show ?case using state_layerEls_id [of s] by simp
next
  case (Cons r rs)
  from Cons.prems obtain z where z: "LAYER_CONFIG (int index + 1) = Some z"
    using LAYER_CONFIG_Some [of "int index + 1"] by auto
  have "\<exists>f. resetLoop index (r # rs) s = resetLoop (index + 1) rs (updLayer r f s)"
    by (simp add: z) blast
  then obtain f
    where step: "resetLoop index (r # rs) s = resetLoop (index + 1) rs (updLayer r f s)"
    by blast
  from Cons.prems have "(index + 1) + length rs \<le> 5" by simp
  from Cons.IH [OF this, of "updLayer r f s"] show ?case
    unfolding step by simp
qed

lemma resetLayerPositions_frame:
  "length (layers s) \<le> 5 \<Longrightarrow> \<exists>els. resetLayerPositions s = Some (s\<lparr>layerEls := els\<rparr>)"
  unfolding resetLayerPositions_def using resetLoop_frame [of 0 "layers s" s] by simp

lemma otherStyle_rest [simp]:
  "otherStyle (l\<lparr>styleTransform := a, styleZIndex := b\<rparr>) = otherStyle l"
  by (simp add: otherStyle_def)

lemma resetLoop_upt:
  assumes "n \<le> 5" "n \<le> length (layerEls s)" "index \<le> n"
  shows "\<exists>els. resetLoop index [index..<n] s = Some (s\<lparr>layerEls := els\<rparr>) \<and>
           length els = length (layerEls s) \<and>
           (\<forall>r. index \<le> r \<and> r < n \<longrightarrow> atRest r (els ! r)) \<and>
           (\<forall>r. r < index \<longrightarrow> els ! r = layerEls s ! r) \<and>
           map otherStyle els = map otherStyle (layerEls s)"
  using assms
proof (induction "n - index" arbitrary: index s)
  case 0
  then have "n \<le> index" by simp
  then have "resetLoop index [index..<n] s = Some (s\<lparr>layerEls := layerEls s\<rparr>)" by simp
  moreover from \<open>n \<le> index\<close> have "\<forall>r. index \<le> r \<and> r < n \<longrightarrow> atRest r (layerEls s ! r)"
    by auto
  ultimately show ?case by blast
next
  case (Suc k)
  from Suc.hyps(2) have lt: "index < n" by simp
  then have upt: "[index..<n] = index # [index + 1..<n]" by (simp add: upt_conv_Cons)
  from lt Suc.prems(1) obtain z where z: "LAYER_CONFIG (int index + 1) = Some z"
    using LAYER_CONFIG_Some [of "int index + 1"] by auto
  define f :: "layer_el \<Rightarrow> layer_el"
    where "f = (\<lambda>l. l\<lparr>styleTransform := Rest z, styleZIndex := False\<rparr>)"
  define t where "t = updLayer index f s"
  have step: "resetLoop index [index..<n] s = resetLoop (index + 1) [index + 1..<n] t"
    unfolding upt by (simp add: z t_def f_def)
  have len: "length (layerEls t) = length (layerEls s)" by (simp add: t_def updLayer_def)
  from Suc.hyps(2) have k: "k = n - (index + 1)" by simp
  from lt have le: "index + 1 \<le> n" by simp
  from Suc.prems(2) len have n: "n \<le> length (layerEls t)" by simp
  from Suc.hyps(1) [OF k Suc.prems(1) n le] obtain els where
    els: "resetLoop (index + 1) [index + 1..<n] t = Some (t\<lparr>layerEls := els\<rparr>)"
      "length els = length (layerEls t)"
      "\<forall>r. index + 1 \<le> r \<and> r < n \<longrightarrow> atRest r (els ! r)"
      "\<forall>r. r < index + 1 \<longrightarrow> els ! r = layerEls t ! r"
      "map otherStyle els = map otherStyle (layerEls t)"
    by blast
  from lt Suc.prems(2) have inb: "index < length (layerEls s)" by simp
  from els(4) have "els ! index = layerEls t ! index" by simp
  with inb have here: "els ! index = f (layerEls s ! index)" by (simp add: t_def updLayer_def)
  have "atRest index (f (layerEls s ! index))" by (simp add: atRest_def z f_def)
  with here have rest_here: "atRest index (els ! index)" by simp
  have rest: "\<forall>r. index \<le> r \<and> r < n \<longrightarrow> atRest r (els ! r)"
  proof (intro allI impI)
    fix r assume r: "index \<le> r \<and> r < n"
    show "atRest r (els ! r)"
    proof (cases "r = index")
      case True
      with rest_here show ?thesis by simp
    next
      case False
      with r have "index + 1 \<le> r \<and> r < n" by simp
      with els(3) show ?thesis by blast
    qed
  qed
  have before: "\<forall>r. r < index \<longrightarrow> els ! r = layerEls s ! r"
  proof (intro allI impI)
    fix r assume r: "r < index"
    with els(4) have "els ! r = layerEls t ! r" by simp
    also from r have "\<dots> = layerEls s ! r" by (simp add: t_def updLayer_def)
    finally show "els ! r = layerEls s ! r" .
  qed
  have "map otherStyle (layerEls t) = (map otherStyle (layerEls s))[index := otherStyle (layerEls s ! index)]"
    by (simp add: t_def updLayer_def map_update f_def)
  also from inb have "\<dots> = (map otherStyle (layerEls s))[index := map otherStyle (layerEls s) ! index]"
    by simp
  also have "\<dots> = map otherStyle (layerEls s)" by (rule list_update_id)
  finally have other: "map otherStyle els = map otherStyle (layerEls s)" using els(5) by simp
  have "t\<lparr>layerEls := els\<rparr> = s\<lparr>layerEls := els\<rparr>" by (simp add: t_def)
  with els(1) step have "resetLoop index [index..<n] s = Some (s\<lparr>layerEls := els\<rparr>)" by simp
  with els(2) len rest before other show ?case by auto
qed

lemma positionsReset_upt:
  assumes "layers s = [0..<n]"
  shows "positionsReset s = (\<forall>r<n. atRest r (layerEls s ! r))"
proof -
  have "zip [0..<n] [0..<n] = map (\<lambda>r. (r, r)) [0..<n]"
    by (simp add: zip_same_conv_map)
  with assms show ?thesis
    by (auto simp: positionsReset_def list_all_iff)
qed

lemma resetLayerPositions_result:
  assumes "layers_ok s" "length (layers s) \<le> length (layerEls s)"
  shows "\<exists>els. resetLayerPositions s = Some (s\<lparr>layerEls := els\<rparr>) \<and>
           positionsReset (s\<lparr>layerEls := els\<rparr>) \<and>
           map otherStyle els = map otherStyle (layerEls s)"
proof -
  define n where "n = length (layers s)"
  from assms(1) have ls: "layers s = [0..<n]" and five: "n \<le> 5"
    by (simp_all add: layers_ok_def n_def)
  from assms(2) have "n \<le> length (layerEls s)" by (simp add: n_def)
  from resetLoop_upt [OF five this, of 0] obtain els where
    els: "resetLoop 0 [0..<n] s = Some (s\<lparr>layerEls := els\<rparr>)"
      "\<forall>r. 0 \<le> r \<and> r < n \<longrightarrow> atRest r (els ! r)"
      "map otherStyle els = map otherStyle (layerEls s)"
    by auto
  from ls have "layers (s\<lparr>layerEls := els\<rparr>) = [0..<n]" by simp
  from positionsReset_upt [OF this] els(2) have "positionsReset (s\<lparr>layerEls := els\<rparr>)" by simp
  with els(1,3) ls show ?thesis by (auto simp: resetLayerPositions_def)
qed

lemma showLayerDetails_latched: "isAnimating s \<Longrightarrow> showLayerDetails i s = Some s"
  by (simp add: showLayerDetails_def)

lemma hideLayerDetails_result:
  assumes "length (layers s) \<le> 5" and "docOverlays s = ov # rest"
  shows "\<exists>els. hideLayerDetails s =
           Some (s\<lparr>docOverlays := ov\<lparr>ov_fadeOut := True\<rparr> # rest,
                   timers := timers s @ [(lm_clock s + 300, RemoveOverlay (ov_id ov))],
                   layerEls := els,
                   lm_dispatched := lm_dispatched s @
                     [(''layerDetailsHidden'', None, activeLayer s, focusedLayer s)]\<rparr>)"
proof -
  define s1 where "s1 = setTimeout (RemoveOverlay (ov_id ov)) 300
                          (s\<lparr>docOverlays := ov\<lparr>ov_fadeOut := True\<rparr> # rest\<rparr>)"
  from assms(1) have "length (layers s1) \<le> 5" by (simp add: s1_def setTimeout_def)
  from resetLayerPositions_frame [OF this] obtain els
    where "resetLayerPositions s1 = Some (s1\<lparr>layerEls := els\<rparr>)" by blast
  with assms(2) have "hideLayerDetails s =
      Some (dispatchLayerEvent ''layerDetailsHidden'' None (s1\<lparr>layerEls := els\<rparr>))"
    by (simp add: hideLayerDetails_def s1_def)
  then show ?thesis
    by (auto simp: s1_def setTimeout_def dispatchLayerEvent_def)
qed

lemma hideLayerDetails_empty:
  assumes "length (layers s) \<le> 5" and "docOverlays s = []"
  shows "\<exists>els. hideLayerDetails s =
           Some (s\<lparr>layerEls := els,
                   lm_dispatched := lm_dispatched s @
                     [(''layerDetailsHidden'', None, activeLayer s, focusedLayer s)]\<rparr>)"
proof -
  from resetLayerPositions_frame [OF assms(1)] obtain els
    where "resetLayerPositions s = Some (s\<lparr>layerEls := els\<rparr>)" by blast
  with assms(2) have "hideLayerDetails s =
      Some (dispatchLayerEvent ''layerDetailsHidden'' None (s\<lparr>layerEls := els\<rparr>))"
    by (simp add: hideLayerDetails_def)
  then show ?thesis
    by (auto simp: dispatchLayerEvent_def)
qed

lemma hideLayerDetails_resets:
  assumes "layers_ok s" "length (layers s) \<le> length (layerEls s)" "docOverlays s = ov # rest"
  shows "\<exists>els. hideLayerDetails s =
           Some (s\<lparr>docOverlays := ov\<lparr>ov_fadeOut := True\<rparr> # rest,
                   timers := timers s @ [(lm_clock s + 300, RemoveOverlay (ov_id ov))],
                   layerEls := els,
                   lm_dispatched := lm_dispatched s @
                     [(''layerDetailsHidden'', None, activeLayer s, focusedLayer s)]\<rparr>) \<and>
           (\<forall>r<length (layers s). atRest r (els ! r)) \<and>
           map otherStyle els = map otherStyle (layerEls s)"
proof -
  define s1 where "s1 = setTimeout (RemoveOverlay (ov_id ov)) 300
                          (s\<lparr>docOverlays := ov\<lparr>ov_fadeOut := True\<rparr> # rest\<rparr>)"
  have same: "layers s1 = layers s" "layerEls s1 = layerEls s"
    by (simp_all add: s1_def setTimeout_def)
  with assms(1,2) have "layers_ok s1" "length (layers s1) \<le> length (layerEls s1)"
    by (simp_all add: layers_ok_def)
  from resetLayerPositions_result [OF this] obtain els where
    els: "resetLayerPositions s1 = Some (s1\<lparr>layerEls := els\<rparr>)"
      "positionsReset (s1\<lparr>layerEls := els\<rparr>)"
      "map otherStyle els = map otherStyle (layerEls s1)"
    by blast
  from assms(1) same have "layers (s1\<lparr>layerEls := els\<rparr>) = [0..<length (layers s)]"
    by (simp add: layers_ok_def)
  from positionsReset_upt [OF this] els(2)
  have rest: "\<forall>r<length (layers s). atRest r (els ! r)" by simp
  from els(1) assms(3) have "hideLayerDetails s =
      Some (dispatchLayerEvent ''layerDetailsHidden'' None (s1\<lparr>layerEls := els\<rparr>))"
    by (simp add: hideLayerDetails_def s1_def)
  then have "hideLayerDetails s =
           Some (s\<lparr>docOverlays := ov\<lparr>ov_fadeOut := True\<rparr> # rest,
                   timers := timers s @ [(lm_clock s + 300, RemoveOverlay (ov_id ov))],
                   layerEls := els,
                   lm_dispatched := lm_dispatched s @
                     [(''layerDetailsHidden'', None, activeLayer s, focusedLayer s)]\<rparr>)"
    by (simp add: s1_def setTimeout_def dispatchLayerEvent_def)
  with rest els(3) same show ?thesis by auto
qed


lemma getLayer_updates [simp]:
  "getLayer i (s\<lparr>docOverlays := a\<rparr>) = getLayer i s"
  "getLayer i (s\<lparr>isAnimating := b\<rparr>) = getLayer i s"
  "getLayer i (s\<lparr>layerEls := c\<rparr>) = getLayer i s"
  "getLayer i (s\<lparr>nextNode := d\<rparr>) = getLayer i s"
  "getLayer i (s\<lparr>lm_listeners := e\<rparr>) = getLayer i s"
  "getLayer i (s\<lparr>lm_nextFn := f\<rparr>) = getLayer i s"
  "getLayer i (s\<lparr>timers := g\<rparr>) = getLayer i s"
  "getLayer i (s\<lparr>lm_dispatched := h\<rparr>) = getLayer i s"
  by (simp_all add: getLayer_def)

lemma createDetailOverlay_result:
  assumes "getLayer i s = Some r" "hasContent (layerEls s ! r)" "length (layers s) \<le> 5"
  shows "createDetailOverlay i s =
           Some (s\<lparr>docOverlays := drop 1 (docOverlays s) @
                     [\<lparr>ov_id = nextNode s, ov_layer = i, ov_fadeOut = False\<rparr>],
                   nextNode := nextNode s + 1,
                   lm_nextFn := lm_nextFn s + 3,
                   lm_listeners :=
                     addEventListener (Document, ''keydown'', Closure (lm_nextFn s + 2))
                       (addEventListener (OverlayEl (nextNode s), ''click'', Closure (lm_nextFn s + 1))
                         (addEventListener (CloseButtonEl (nextNode s), ''click'', Closure (lm_nextFn s))
                           (lm_listeners s)))\<rparr>)"
proof -
  from getLayer_range [OF assms(1)] assms(3) obtain z where "LAYER_CONFIG i = Some z"
    using LAYER_CONFIG_Some [of i] by auto
  with assms(1,2) show ?thesis
    by (simp add: createDetailOverlay_def Let_def lm_listenClosure_def lm_listen_def)
qed

lemma showLayerDetails_opens:
  assumes "\<not> isAnimating s" "getLayer i s = Some r" "hasContent (layerEls s ! r)"
    "length (layers s) \<le> 5"
  shows "\<exists>s'. showLayerDetails i s = Some s' \<and> isAnimating s' \<and>
           docOverlays s' = drop 1 (docOverlays s) @
             [\<lparr>ov_id = nextNode s, ov_layer = i, ov_fadeOut = False\<rparr>] \<and>
           timers s' = timers s @ [(lm_clock s + 500, ReleaseLatch)] \<and>
           layers s' = layers s \<and>
           layerEls s' = (layerEls s)[r := (layerEls s ! r)\<lparr>styleTransform := Front, styleZIndex := True\<rparr>]"
proof -
  let ?s0 = "s\<lparr>isAnimating := True\<rparr>"
  from assms have "getLayer i ?s0 = Some r" "hasContent (layerEls ?s0 ! r)" "length (layers ?s0) \<le> 5"
    by simp_all
  from createDetailOverlay_result [OF this] assms(1,2) show ?thesis
    by (simp add: showLayerDetails_def bringToFront_def updLayer_def setTimeout_def
        dispatchLayerEvent_def)
qed

lemma latched_step:
  assumes "isAnimating s" "length (layers s) \<le> 5" "open_close x"
  shows "\<exists>s'. lm_exec x s = Some s' \<and> isAnimating s' \<and> length (layers s') \<le> 5 \<and>
           length (docOverlays s') = length (docOverlays s)"
proof (cases x)
  case (ShowLayerDetails i)
  with assms show ?thesis by (simp add: showLayerDetails_latched)
next
  case HideLayerDetails
  show ?thesis
  proof (cases "docOverlays s")
    case Nil
    from hideLayerDetails_empty [OF assms(2) Nil] HideLayerDetails assms Nil show ?thesis by auto
  next
    case (Cons ov rest)
    from hideLayerDetails_result [OF assms(2) Cons] HideLayerDetails assms Cons show ?thesis by auto
  qed
qed (use assms in simp_all)

lemma latched_run:
  "isAnimating s \<Longrightarrow> length (layers s) \<le> 5 \<Longrightarrow> list_all open_close xs \<Longrightarrow>
   \<exists>s'. lm_run xs s = Some s' \<and> isAnimating s' \<and>
        length (docOverlays s') = length (docOverlays s)"
proof (induction xs arbitrary: s)
  case Nil
  then show ?case by simp
next
  case (Cons x xs)
  from Cons.prems have "open_close x" "list_all open_close xs" by simp_all
  from latched_step [OF Cons.prems(1,2) this(1)] obtain s1 where
    s1: "lm_exec x s = Some s1" "isAnimating s1" "length (layers s1) \<le> 5"
      "length (docOverlays s1) = length (docOverlays s)" by blast
  from Cons.IH [OF s1(2,3) \<open>list_all open_close xs\<close>] s1(1,4) show ?case by auto
qed

lemma latched_calls:
  assumes "isAnimating s" and "length (layers s) \<le> 5"
  shows "showLayerDetails i s = Some s \<and>
         (docOverlays s = ov # rest \<longrightarrow>
            (\<exists>s'. hideLayerDetails s = Some s' \<and> s' \<noteq> s \<and> isAnimating s' \<and>
               docOverlays s' = ov\<lparr>ov_fadeOut := True\<rparr> # rest \<and>
               timers s' = timers s @ [(lm_clock s + 300, RemoveOverlay (ov_id ov))] \<and>
               lm_dispatched s' = lm_dispatched s @
                 [(''layerDetailsHidden'', None, activeLayer s, focusedLayer s)])) \<and>
         (list_all open_close xs \<longrightarrow>
            (\<exists>s'. lm_run xs s = Some s' \<and> isAnimating s' \<and>
               length (docOverlays s') = length (docOverlays s)))"
proof -
  have "showLayerDetails i s = Some s" by (rule showLayerDetails_latched [OF assms(1)])
  moreover have "docOverlays s = ov # rest \<longrightarrow>
            (\<exists>s'. hideLayerDetails s = Some s' \<and> s' \<noteq> s \<and> isAnimating s' \<and>
               docOverlays s' = ov\<lparr>ov_fadeOut := True\<rparr> # rest \<and>
               timers s' = timers s @ [(lm_clock s + 300, RemoveOverlay (ov_id ov))] \<and>
               lm_dispatched s' = lm_dispatched s @
                 [(''layerDetailsHidden'', None, activeLayer s, focusedLayer s)])"
  proof
    assume ovs: "docOverlays s = ov # rest"
    from hideLayerDetails_result [OF assms(2) ovs] obtain els where
      h: "hideLayerDetails s =
           Some (s\<lparr>docOverlays := ov\<lparr>ov_fadeOut := True\<rparr> # rest,
                   timers := timers s @ [(lm_clock s + 300, RemoveOverlay (ov_id ov))],
                   layerEls := els,
                   lm_dispatched := lm_dispatched s @
                     [(''layerDetailsHidden'', None, activeLayer s, focusedLayer s)]\<rparr>)"
      by blast
    let ?s' = "s\<lparr>docOverlays := ov\<lparr>ov_fadeOut := True\<rparr> # rest,
                   timers := timers s @ [(lm_clock s + 300, RemoveOverlay (ov_id ov))],
                   layerEls := els,
                   lm_dispatched := lm_dispatched s @
                     [(''layerDetailsHidden'', None, activeLayer s, focusedLayer s)]\<rparr>"
    have "timers ?s' \<noteq> timers s" by simp
    then have "?s' \<noteq> s" by metis
    with h assms(1) show "\<exists>s'. hideLayerDetails s = Some s' \<and> s' \<noteq> s \<and> isAnimating s' \<and>
               docOverlays s' = ov\<lparr>ov_fadeOut := True\<rparr> # rest \<and>
               timers s' = timers s @ [(lm_clock s + 300, RemoveOverlay (ov_id ov))] \<and>
               lm_dispatched s' = lm_dispatched s @
                 [(''layerDetailsHidden'', None, activeLayer s, focusedLayer s)]"
      by simp
  qed
  moreover from latched_run [OF assms, of xs]
  have "list_all open_close xs \<longrightarrow>
            (\<exists>s'. lm_run xs s = Some s' \<and> isAnimating s' \<and>
               length (docOverlays s') = length (docOverlays s))"
    by blast
  ultimately show ?thesis by blast
qed


text \<open>
  Claim C3, as the code has it. Open the detail overlay of an existing layer from a state
  whose latch is free and whose document holds at most one overlay: the latch is then held,
  the document holds exactly one overlay node, and the layer is brought to the front
  (\<^verbatim>\<open>translateZ(300px) scale(1.1)\<close>, \<^verbatim>\<open>z-index\<close> 1000). While the latch is held,
  \<^item> a further \<^verbatim>\<open>showLayerDetails\<close> call, for any layer, returns the state unchanged;
  \<^item> \<^verbatim>\<open>hideLayerDetails\<close> is not guarded by the latch: it marks the overlay
    \<^verbatim>\<open>fade-out\<close>, schedules its removal 300 ms later, dispatches
    \<^verbatim>\<open>layerDetailsHidden\<close>, and resets the layer positions: every layer is back at the
    \<^verbatim>\<open>translateZ\<close> of its static offset with no \<^verbatim>\<open>z-index\<close> (before the call the opened
    layer was not), the rest of each layer's style is as before, and no other field of the
    manager changes;
  \<^item> any sequence of such open and close calls leaves the latch held and exactly one overlay
    node in the document (the node goes only when a removal timer fires).
\<close>

theorem reentrant_open_ignored:
  assumes "\<not> isAnimating s" "getLayer i s = Some r" "hasContent (layerEls s ! r)"
    "layers_ok s" "length (layers s) \<le> length (layerEls s)" "length (docOverlays s) \<le> 1"
  shows "\<exists>s1. showLayerDetails i s = Some s1 \<and> isAnimating s1 \<and> length (docOverlays s1) = 1 \<and>
           styleTransform (layerEls s1 ! r) = Front \<and> styleZIndex (layerEls s1 ! r) \<and>
           \<not> positionsReset s1 \<and>
           showLayerDetails j s1 = Some s1 \<and>
           (\<exists>s2. hideLayerDetails s1 = Some s2 \<and> s2 \<noteq> s1 \<and> isAnimating s2 \<and>
              length (docOverlays s2) = 1 \<and> list_all ov_fadeOut (docOverlays s2) \<and>
              timers s2 = timers s1 @ [(lm_clock s1 + 300, RemoveOverlay (nextNode s))] \<and>
              lm_dispatched s2 = lm_dispatched s1 @
                [(''layerDetailsHidden'', None, activeLayer s1, focusedLayer s1)] \<and>
              positionsReset s2 \<and>
              map otherStyle (layerEls s2) = map otherStyle (layerEls s1) \<and>
              s2 = s1\<lparr>docOverlays := docOverlays s2, timers := timers s2,
                      layerEls := layerEls s2, lm_dispatched := lm_dispatched s2\<rparr>) \<and>
           (list_all open_close xs \<longrightarrow>
              (\<exists>s3. lm_run xs s1 = Some s3 \<and> isAnimating s3 \<and> length (docOverlays s3) = 1))"
proof -
  define n where "n = length (layers s)"
  from assms(4) have ls: "layers s = [0..<n]" and five: "length (layers s) \<le> 5"
    by (simp_all add: layers_ok_def n_def)
  from getLayer_range [OF assms(2)] have i: "1 \<le> i" "i \<le> int (length (layers s))" by simp_all
  from getLayer_upt [OF assms(4) i] assms(2) have r: "r = nat (i - 1)" by simp
  with i have rn: "r < n" by (simp add: n_def)
  with assms(5) have rl: "r < length (layerEls s)" by (simp add: n_def)
  let ?ov = "\<lparr>ov_id = nextNode s, ov_layer = i, ov_fadeOut = False\<rparr>"
  from showLayerDetails_opens [OF assms(1-3) five] obtain s1 where
    s1: "showLayerDetails i s = Some s1" "isAnimating s1"
      "docOverlays s1 = drop 1 (docOverlays s) @ [?ov]"
      "layers s1 = layers s"
      "layerEls s1 = (layerEls s)[r := (layerEls s ! r)\<lparr>styleTransform := Front, styleZIndex := True\<rparr>]"
    by blast
  from assms(6) have "drop 1 (docOverlays s) = []" by simp
  with s1(3) have ovs: "docOverlays s1 = ?ov # []" by simp
  from s1(5) rl have front: "styleTransform (layerEls s1 ! r) = Front" "styleZIndex (layerEls s1 ! r)"
    by simp_all
  from s1(4) ls have ls1: "layers s1 = [0..<n]" by simp
  from front(1) have "\<not> atRest r (layerEls s1 ! r)"
    by (simp add: atRest_def split: option.splits)
  with rn positionsReset_upt [OF ls1] have notreset: "\<not> positionsReset s1" by blast
  from s1(4) five have five1: "length (layers s1) \<le> 5" by simp
  from s1(4) assms(4) have ok1: "layers_ok s1" by (simp add: layers_ok_def)
  from s1(4,5) assms(5) have len1: "length (layers s1) \<le> length (layerEls s1)" by simp
  note L = latched_calls [OF s1(2) five1, of j ?ov "[]" xs]
  from L have again: "showLayerDetails j s1 = Some s1" by blast
  from L ovs have runs: "list_all open_close xs \<longrightarrow>
              (\<exists>s3. lm_run xs s1 = Some s3 \<and> isAnimating s3 \<and> length (docOverlays s3) = 1)"
    by simp
  from hideLayerDetails_resets [OF ok1 len1 ovs] obtain els where
    h: "hideLayerDetails s1 =
           Some (s1\<lparr>docOverlays := ?ov\<lparr>ov_fadeOut := True\<rparr> # [],
                   timers := timers s1 @ [(lm_clock s1 + 300, RemoveOverlay (ov_id ?ov))],
                   layerEls := els,
                   lm_dispatched := lm_dispatched s1 @
                     [(''layerDetailsHidden'', None, activeLayer s1, focusedLayer s1)]\<rparr>)"
      and rest: "\<forall>r<length (layers s1). atRest r (els ! r)"
      and other: "map otherStyle els = map otherStyle (layerEls s1)"
    by blast
  define s2 where "s2 = s1\<lparr>docOverlays := ?ov\<lparr>ov_fadeOut := True\<rparr> # [],
                   timers := timers s1 @ [(lm_clock s1 + 300, RemoveOverlay (ov_id ?ov))],
                   layerEls := els,
                   lm_dispatched := lm_dispatched s1 @
                     [(''layerDetailsHidden'', None, activeLayer s1, focusedLayer s1)]\<rparr>"
  from h have hide: "hideLayerDetails s1 = Some s2" by (simp add: s2_def)
  have fields: "isAnimating s2 = isAnimating s1" "docOverlays s2 = [?ov\<lparr>ov_fadeOut := True\<rparr>]"
    "timers s2 = timers s1 @ [(lm_clock s1 + 300, RemoveOverlay (nextNode s))]"
    "lm_dispatched s2 = lm_dispatched s1 @
       [(''layerDetailsHidden'', None, activeLayer s1, focusedLayer s1)]"
    "layerEls s2 = els" "layers s2 = layers s1"
    by (simp_all add: s2_def)
  from fields(3) have "timers s2 \<noteq> timers s1" by simp
  then have neq: "s2 \<noteq> s1" by metis
  from fields(6) ls1 have "layers s2 = [0..<n]" by simp
  from positionsReset_upt [OF this] rest fields(5) ls1 have reset: "positionsReset s2" by simp
  have frame: "s2 = s1\<lparr>docOverlays := docOverlays s2, timers := timers s2,
                      layerEls := layerEls s2, lm_dispatched := lm_dispatched s2\<rparr>"
    by (simp add: s2_def)
  from fields(2) have ov2: "length (docOverlays s2) = 1" "list_all ov_fadeOut (docOverlays s2)"
    by simp_all
  from other fields(5) have other2: "map otherStyle (layerEls s2) = map otherStyle (layerEls s1)"
    by simp
  from s1(2) fields(1) have latch2: "isAnimating s2" by simp
  have closes: "\<exists>s2. hideLayerDetails s1 = Some s2 \<and> s2 \<noteq> s1 \<and> isAnimating s2 \<and>
              length (docOverlays s2) = 1 \<and> list_all ov_fadeOut (docOverlays s2) \<and>
              timers s2 = timers s1 @ [(lm_clock s1 + 300, RemoveOverlay (nextNode s))] \<and>
              lm_dispatched s2 = lm_dispatched s1 @
                [(''layerDetailsHidden'', None, activeLayer s1, focusedLayer s1)] \<and>
              positionsReset s2 \<and>
              map otherStyle (layerEls s2) = map otherStyle (layerEls s1) \<and>
              s2 = s1\<lparr>docOverlays := docOverlays s2, timers := timers s2,
                      layerEls := layerEls s2, lm_dispatched := lm_dispatched s2\<rparr>"
    using hide neq latch2 ov2 fields(3,4) reset other2 frame by blast
  from ovs have one: "length (docOverlays s1) = 1" by simp
  from s1(1,2) one front notreset again closes runs show ?thesis by blast
qed

theorem reentrant_open_ignored_witness:
  "\<not> isAnimating demoManager \<and> getLayer 3 demoManager = Some 2 \<and>
   hasContent (layerEls demoManager ! 2) \<and> layers_ok demoManager \<and>
   length (layers demoManager) \<le> length (layerEls demoManager) \<and>
   length (docOverlays demoManager) \<le> 1 \<and>
   list_all open_close [ShowLayerDetails 4, HideLayerDetails, ShowLayerDetails 3] \<and>
   (\<exists>s1. showLayerDetails 3 demoManager = Some s1 \<and> isAnimating s1 \<and>
      length (docOverlays s1) = 1 \<and> styleTransform (layerEls s1 ! 2) = Front \<and>
      \<not> positionsReset s1 \<and> showLayerDetails 4 s1 = Some s1 \<and>
      (\<exists>s2. hideLayerDetails s1 = Some s2 \<and> s2 \<noteq> s1 \<and> isAnimating s2 \<and> positionsReset s2 \<and>
         map otherStyle (layerEls s2) = map otherStyle (layerEls s1)) \<and>
      (\<exists>s3. lm_run [ShowLayerDetails 4, HideLayerDetails, ShowLayerDetails 3] s1 = Some s3 \<and>
         isAnimating s3 \<and> length (docOverlays s3) = 1))"
proof -
  have h: "\<not> isAnimating demoManager" "getLayer 3 demoManager = Some 2"
    "hasContent (layerEls demoManager ! 2)" "layers_ok demoManager"
    "length (layers demoManager) \<le> length (layerEls demoManager)"
    "length (docOverlays demoManager) \<le> 1"
    by (simp_all add: demoManager_fields getLayer_def layers_ok_def)
       (simp_all add: demoManager_def demoLayers_def plainLayer_def)
  have oc: "list_all open_close [ShowLayerDetails 4, HideLayerDetails, ShowLayerDetails 3]"
    by simp
  from reentrant_open_ignored [OF h, of 4 "[ShowLayerDetails 4, HideLayerDetails, ShowLayerDetails 3]"]
    oc h show ?thesis
    by blast
qed

text \<open>
  The claim as worded fails: 300 ms after an open followed by a close, the latch (500 ms) is
  still held, the close has run (its event was dispatched) and the document holds no overlay
  node; without the close it holds one.
\<close>

theorem hide_not_latched_counterexample:
  "lm_construct demoLayers demoDots
     \<bind> lm_run [ShowLayerDetails 3, HideLayerDetails, Elapse 300]
     \<bind> (\<lambda>s. Some (isAnimating s, length (docOverlays s), map fst (lm_dispatched s)))
   = Some (True, 0, [''layerActivated'', ''layerDetailsShown'', ''layerDetailsHidden'']) \<and>
   lm_construct demoLayers demoDots
     \<bind> lm_run [ShowLayerDetails 3, Elapse 300]
     \<bind> (\<lambda>s. Some (isAnimating s, length (docOverlays s), map fst (lm_dispatched s)))
   = Some (True, 1, [''layerActivated'', ''layerDetailsShown''])"
proof -
  have "lm_run [ShowLayerDetails 3, HideLayerDetails, Elapse 300] demoManager
     \<bind> (\<lambda>s. Some (isAnimating s, length (docOverlays s), map fst (lm_dispatched s)))
   = Some (True, 0, [''layerActivated'', ''layerDetailsShown'', ''layerDetailsHidden''])"
    by code_simp
  moreover have "lm_run [ShowLayerDetails 3, Elapse 300] demoManager
     \<bind> (\<lambda>s. Some (isAnimating s, length (docOverlays s), map fst (lm_dispatched s)))
   = Some (True, 1, [''layerActivated'', ''layerDetailsShown''])"
    by code_simp
  ultimately show ?thesis by (simp add: lm_construct_demo)
qed

section \<open>Teardown\<close>

text \<open>
  Claim C4 at its failing inputs. \<^verbatim>\<open>RotationController.destroy()\<close> passes the prototype
  methods to \<^verbatim>\<open>removeEventListener\<close>, while the constructor registered the objects returned
  by \<^verbatim>\<open>bind\<close>: all eleven listeners of a fresh controller are still attached afterwards
  (the momentum callback is cancelled). \<^verbatim>\<open>LayerManager.destroy()\<close> detaches the handlers
  kept in \<^verbatim>\<open>boundHandlers\<close> but not the indicators' key handlers nor the document's key
  handlers; after an open overlay, nine listeners remain, and the overlay node is still in
  the document when \<^verbatim>\<open>destroy()\<close> returns, its removal waiting on the 300 ms timer.
\<close>

theorem destroy_leaves_listeners:
  "rc_listeners (rc_destroy (rc_construct 0)) = rc_listeners (rc_construct 0) \<and>
   length (rc_listeners (rc_construct 0)) = 11 \<and>
   frameQueue (rc_destroy (rc_construct 0)) = [] \<and>
   lm_construct demoLayers demoDots \<bind> lm_run [ShowLayerDetails 3, LmDestroy]
     \<bind> (\<lambda>s. Some (length (lm_listeners s), length (docOverlays s), map fst (timers s)))
   = Some (9, 1, [500, 300]) \<and>
   lm_construct demoLayers demoDots \<bind> lm_run [LmDestroy]
     \<bind> (\<lambda>s. Some (lm_listeners s))
   = Some [(IndicatorEl 0, ''keydown'', Closure 7), (IndicatorEl 1, ''keydown'', Closure 8),
           (IndicatorEl 2, ''keydown'', Closure 9), (IndicatorEl 3, ''keydown'', Closure 10),
           (IndicatorEl 4, ''keydown'', Closure 11),
           (Document, ''keydown'', Bound ''handleKeyNavigation'' 12)]"
proof -
  have rc: "rc_listeners (rc_destroy (rc_construct 0)) = rc_listeners (rc_construct 0)"
    "length (rc_listeners (rc_construct 0)) = 11"
    "frameQueue (rc_destroy (rc_construct 0)) = []"
    by (simp_all add: rc_construct_eq rc_destroy_def rc_unlisten_def removeEventListener_def
        cancelAnimationFrame_def)
  have "lm_run [ShowLayerDetails 3, LmDestroy] demoManager
     \<bind> (\<lambda>s. Some (length (lm_listeners s), length (docOverlays s), map fst (timers s)))
   = Some (9, 1, [500, 300])"
    by code_simp
  moreover have "lm_run [LmDestroy] demoManager \<bind> (\<lambda>s. Some (lm_listeners s))
   = Some [(IndicatorEl 0, ''keydown'', Closure 7), (IndicatorEl 1, ''keydown'', Closure 8),
           (IndicatorEl 2, ''keydown'', Closure 9), (IndicatorEl 3, ''keydown'', Closure 10),
           (IndicatorEl 4, ''keydown'', Closure 11),
           (Document, ''keydown'', Bound ''handleKeyNavigation'' 12)]"
    by code_simp
  ultimately show ?thesis using rc by (simp add: lm_construct_demo)
qed

lemma getLayer_nil [simp]: "layers s = [] \<Longrightarrow> getLayer i s = None"
  by (simp add: getLayer_def)

lemma runTimer_layers [simp]: "layers (runTimer s a) = layers s"
  by (cases a) (simp_all add: runTimer_def)

lemma foldl_runTimer_layers [simp]: "layers (foldl runTimer s as) = layers s"
  by (induction as arbitrary: s) simp_all

lemma elapse_layers [simp]: "layers (elapse d s) = layers s"
  by (simp add: elapse_def Let_def)

lemma dispatch_layers [simp]: "layers (dispatchLayerEvent n i s) = layers s"
  by (simp add: dispatchLayerEvent_def)

lemma focusOnLayer_nil: "layers s = [] \<Longrightarrow> focusOnLayer i s = Some s"
  by (simp add: focusOnLayer_def)

lemma destroyed_methods:
  assumes "layers s = []"
  shows "highlightLayer i s = Some s" "unhighlightLayer i s = Some s"
    "showLayerDetails i s = Some s" "cycleLayers d s = Some s"
    "\<exists>s'. navigateLayer d s = Some s' \<and> layers s' = []"
    "\<exists>s'. hideLayerDetails s = Some s' \<and> layers s' = []"
    "\<exists>s'. handleRotationUpdate rx ry s = Some s' \<and> layers s' = []"
proof -
  from assms show "highlightLayer i s = Some s" by (simp add: highlightLayer_def)
  from assms show "unhighlightLayer i s = Some s" by (simp add: unhighlightLayer_def)
  from assms show "showLayerDetails i s = Some s" by (simp add: showLayerDetails_def)
  from assms show "cycleLayers d s = Some s" by (simp add: cycleLayers_def Let_def focusOnLayer_nil)
  from assms show "\<exists>s'. navigateLayer d s = Some s' \<and> layers s' = []"
    by (simp add: navigateLayer_def Let_def focusOnLayer_nil setActiveLayer_frame)
  from assms show "\<exists>s'. hideLayerDetails s = Some s' \<and> layers s' = []"
    by (cases "docOverlays s")
       (simp_all add: hideLayerDetails_def resetLayerPositions_def setTimeout_def)
  from assms show "\<exists>s'. handleRotationUpdate rx ry s = Some s' \<and> layers s' = []"
    by (simp add: handleRotationUpdate_def updateLayerVisibility_def
        updateActiveLayerFromRotation_def Let_def setActiveLayer_frame)
qed

lemma destroyed_handlers:
  assumes "layers s = []"
  shows "\<exists>s'. handleLayerClick i s = Some s' \<and> layers s' = []"
    "\<exists>s'. handleLayerHover i s = Some s' \<and> layers s' = []"
    "\<exists>s'. handleLayerLeave i s = Some s' \<and> layers s' = []"
    "\<exists>s'. handleIndicatorClick i s = Some s' \<and> layers s' = []"
    "key \<notin> set prototypeThrowing \<Longrightarrow>
       \<exists>s'. handleKeyNavigation key shift s = Some s' \<and> layers s' = []"
    "\<exists>s'. elementBlur s = Some s' \<and> layers s' = []"
    "\<exists>s'. elementFocus r s = Some s' \<and> layers s' = []"
proof -
  from assms show "\<exists>s'. handleLayerClick i s = Some s' \<and> layers s' = []"
    by (simp add: handleLayerClick_def destroyed_methods setActiveLayer_frame)
  from assms show "\<exists>s'. handleLayerHover i s = Some s' \<and> layers s' = []"
    by (simp add: handleLayerHover_def destroyed_methods)
  from assms show "\<exists>s'. handleLayerLeave i s = Some s' \<and> layers s' = []"
    by (simp add: handleLayerLeave_def destroyed_methods)
  from assms show "\<exists>s'. handleIndicatorClick i s = Some s' \<and> layers s' = []"
    by (simp add: handleIndicatorClick_def focusOnLayer_nil setActiveLayer_frame)
  from assms destroyed_methods(5,6) [OF assms]
  show "key \<notin> set prototypeThrowing \<Longrightarrow>
       \<exists>s'. handleKeyNavigation key shift s = Some s' \<and> layers s' = []"
    by (simp add: handleKeyNavigation_def Let_def destroyed_methods setActiveLayer_frame)
  from assms have five: "length (layers s) \<le> 5" by simp
  from elementBlur_result [OF five] assms
  show "\<exists>s'. elementBlur s = Some s' \<and> layers s' = []" by auto
  from elementFocus_result [OF five, of r] assms
  show "\<exists>s'. elementFocus r s = Some s' \<and> layers s' = []" by auto
qed

lemma destroyed_destroy:
  assumes "length (layers s) \<le> 5"
  shows "\<exists>s'. lm_destroy s = Some s' \<and> layers s' = []"
proof -
  define s3 where "s3 = lm_unlisten (Container, ''rotationUpdate'', bh_rotationUpdate)
     (foldl (\<lambda>s r. lm_unlisten (IndicatorEl r, ''click'', bh_indicatorClick) s)
        (foldl (\<lambda>s r. foldl (\<lambda>s l. lm_unlisten l s) s (layerListeners r)) s (layers s))
        (indicators (foldl (\<lambda>s r. foldl (\<lambda>s l. lm_unlisten l s) s (layerListeners r)) s (layers s))))"
  have un: "layers (lm_unlisten l t) = layers t" "docOverlays (lm_unlisten l t) = docOverlays t" for l t
    by (simp_all add: lm_unlisten_def)
  have f1: "layers (foldl (\<lambda>s l. lm_unlisten l s) t ls) = layers t" for t ls
    by (induction ls arbitrary: t) (simp_all add: un)
  have f2: "layers (foldl (\<lambda>s r. foldl (\<lambda>s l. lm_unlisten l s) s (layerListeners r)) t rs) = layers t" for t rs
    by (induction rs arbitrary: t) (simp_all add: f1)
  have f3: "layers (foldl (\<lambda>s r. lm_unlisten (IndicatorEl r, ''click'', bh_indicatorClick) s) t rs) = layers t" for t rs
    by (induction rs arbitrary: t) (simp_all add: un)
  have "layers s3 = layers s" by (simp add: s3_def un f2 f3)
  with assms have five: "length (layers s3) \<le> 5" by simp
  have eq: "lm_destroy s = do { s4 \<leftarrow> hideLayerDetails s3;
              Some (s4\<lparr>layers := [], indicators := [], activeLayer := None, focusedLayer := None\<rparr>) }"
    by (simp only: lm_destroy_def Let_def s3_def)
  show ?thesis
  proof (cases "docOverlays s3")
    case Nil
    from hideLayerDetails_empty [OF five Nil] show ?thesis unfolding eq by auto
  next
    case (Cons ov rest)
    from hideLayerDetails_result [OF five Cons] show ?thesis unfolding eq by auto
  qed
qed

lemma destroyed_exec:
  assumes "layers s = []" "plain_key x"
  shows "\<exists>s'. lm_exec x s = Some s' \<and> layers s' = []"
proof (cases x)
  case LmDestroy
  from assms have "length (layers s) \<le> 5" by simp
  from destroyed_destroy [OF this] LmDestroy show ?thesis by simp
qed (use assms destroyed_methods [OF assms(1)] destroyed_handlers [OF assms(1)] in
      \<open>simp_all add: setActiveLayer_frame\<close>)

lemma destroyed_run:
  "layers s = [] \<Longrightarrow> list_all plain_key xs \<Longrightarrow> \<exists>s'. lm_run xs s = Some s' \<and> layers s' = []"
proof (induction xs arbitrary: s)
  case Nil
  then show ?case by simp
next
  case (Cons x xs)
  from Cons.prems(2) have "plain_key x" "list_all plain_key xs" by simp_all
  from destroyed_exec [OF Cons.prems(1) this(1)] obtain s1
    where "lm_exec x s = Some s1" "layers s1 = []" by blast
  with Cons.IH [of s1] \<open>list_all plain_key xs\<close> show ?case by simp
qed

text \<open>
  What does hold after \<^verbatim>\<open>LayerManager.destroy()\<close>: the call itself returns normally,
  \<^verbatim>\<open>this.layers\<close> is empty and the selection is unset, and every later sequence of calls
  and events returns normally, each lookup of a layer finding none. The one exception is
  the document's key handler, which \<^verbatim>\<open>destroy()\<close> leaves attached: once a layer is
  active again, a key event whose key names a member of \<^verbatim>\<open>Object.prototype\<close> throws there,
  on a destroyed manager as on a live one.
\<close>

lemma destroyed_instance_never_throws:
  assumes "length (layers s) \<le> 5" "list_all plain_key xs"
  shows "\<exists>s1. lm_destroy s = Some s1 \<and> layers s1 = [] \<and> activeLayer s1 = None \<and>
           (\<exists>s2. lm_run xs s1 = Some s2)"
proof -
  from destroyed_destroy [OF assms(1)] obtain s1 where s1: "lm_destroy s = Some s1" "layers s1 = []"
    by blast
  from s1(1) have "activeLayer s1 = None"
    by (auto simp: lm_destroy_def Let_def split: bind_splits)
  moreover from destroyed_run [OF s1(2) assms(2)] have "\<exists>s2. lm_run xs s1 = Some s2" by blast
  ultimately show ?thesis using s1 by blast
qed

lemma prototype_key_throws:
  "js_truthy (activeLayer s) \<Longrightarrow>
   handleKeyNavigation ''valueOf'' shift s = None \<and>
   handleKeyNavigation ''hasOwnProperty'' shift s = None \<and>
   handleKeyNavigation ''__proto__'' shift s = None"
  by (simp add: handleKeyNavigation_def Let_def prototypeThrowing_def)

end
